theory Spec2Isabelle
  imports Complex_Main
begin

section \<open>The credential pool: \<open>src/utils/server/KeyStore.ts\<close>\<close>

subsection \<open>Data\<close>

text \<open>
  \<open>enum KeyType { HIGHEST, GPT3 = 3, GPT4 }\<close>. The numeric value only shows in the message
  of the "no keys" error (\<open>GPT-0\<close>, \<open>GPT-3\<close>, \<open>GPT-4\<close>).
\<close>

datatype KeyType = HIGHEST | GPT3 | GPT4

fun KeyType_value :: "KeyType \<Rightarrow> nat" where
  "KeyType_value HIGHEST = 0"
| "KeyType_value GPT3 = 3"
| "KeyType_value GPT4 = 4"

text \<open>\<open>interface Key { key: string; type: KeyType }\<close>\<close>

record Key =
  key :: string
  type :: KeyType

text \<open>
  The three static fields of \<open>class KeyStore\<close>. \<open>KeyStore_init\<close> is their value at
  process start.
\<close>

record KeyStore =
  initialized :: bool
  gpt3keys :: "string list"
  gpt4keys :: "string list"

definition KeyStore_init :: KeyStore where
  "KeyStore_init = \<lparr>initialized = False, gpt3keys = [], gpt4keys = []\<rparr>"

text \<open>
  The part of \<open>process.env\<close> the pool reads. A variable that is not set is \<open>None\<close>.
  JavaScript treats the empty string like an unset variable wherever the code tests a
  variable for truth (\<open>if (x)\<close>, \<open>x && y\<close>, \<open>!x\<close>), but not under \<open>??\<close>.
\<close>

record ProcessEnv =
  OPENAI_API_KEY :: "string option"
  OPENAI_API_KEY_SERVER :: "string option"
  OPENAI_API_KEY_SERVER_AUTH :: "string option"
  OPENAI_API_KEYS_FILE :: "string option"

fun truthy_str :: "string option \<Rightarrow> bool" where
  "truthy_str None = False"
| "truthy_str (Some s) = (s \<noteq> [])"

text \<open>A value that \<open>JSON.parse\<close> returns. A number is carried as the text JavaScript
  prints it with.\<close>

datatype json =
    JNull
  | JBool bool
  | JNum string
  | JStr string
  | JArr "json list"
  | JObj "(string \<times> json) list"

text \<open>
  Everything the code can throw, as a value: the two errors of \<open>KeyStore\<close>; an exception
  of the platform outside the process (\<open>fetch\<close>, the file system, a key source that does
  not parse), with its message; the \<open>SyntaxError\<close> of \<open>JSON.parse\<close> and \<open>res.json()\<close>; a
  \<open>TypeError\<close>; \<open>OpenAIError\<close> with its \<open>message\<close>, \<open>type\<close>, \<open>param\<close> and \<open>code\<close>; the
  plain \<open>Error\<close> of lines 166 to 170.
\<close>

datatype error =
    NoKeysAvailable KeyType
  | KeyServerNotConfigured
  | External string
  | SyntaxError
  | TypeError
  | OpenAIError "json option" "json option" "json option" "json option"
  | UpstreamError

subsection \<open>The world outside the process\<close>

text \<open>
  Where \<open>loadKeys\<close> reads from: the key server's \<open>/getKeys\<close> (server, authorization key)
  or a local file (its name).
\<close>

datatype source = KeyServer string string | LocalFile string

text \<open>
  A record of the key source as \<open>JSON.parse\<close> returns it and line 31 types it: the
  \<open>key\<close> and the \<open>type\<close> string (\<open>"gpt-3"\<close> or \<open>"gpt-4"\<close>).
\<close>

type_synonym raw_key = "string \<times> string"

text \<open>
  The log of what the process has done to the outside so far: the sources read by
  \<open>loadKeys\<close>, the keys sent to the key server's \<open>/deleteKey\<close>, the keys used for
  upstream completion calls (all oldest first), and the number of \<open>Math.random()\<close> draws.
\<close>

record world =
  loads :: "source list"
  deleted :: "string list"
  calls :: "string list"
  draws :: nat

definition world_init :: world where
  "world_init = \<lparr>loads = [], deleted = [], calls = [], draws = 0\<rparr>"

text \<open>An event handed to \<open>onParse\<close> by the event-stream parser: \<open>ParsedEvent\<close> with its
  \<open>data\<close>, given as what \<open>JSON.parse(data)\<close> makes of it (\<open>None\<close>: it throws), or
  \<open>ReconnectInterval\<close>.\<close>

datatype sse_event = ParsedEvent "json option" | ReconnectInterval

text \<open>
  An upstream HTTP response: the status, what \<open>res.json()\<close> gives (\<open>None\<close>: the body is
  not JSON and it rejects) and the events its body parses to when read as an event stream.
\<close>

record response =
  status :: nat
  body_json :: "json option"
  body_events :: "sse_event list"

text \<open>
  The outside world's answers, each a function of the log so far (so the key server may
  answer differently once a key has been deleted):
  \<^item> \<open>fetch_keys\<close>: the parsed content of a key source, or the message of the
    exception that reading, fetching or parsing it throws;
  \<^item> \<open>delete_reply\<close>: the \<open>success\<close> field of the key server's answer to \<open>/deleteKey\<close>
    (server, authorization key, key), or the message of the exception of the \<open>fetch\<close>;
  \<^item> \<open>upstream\<close>: the completion API's response to the request made with a key, or the
    message of the exception of the \<open>fetch\<close>;
  \<^item> \<open>random\<close>: the value of the n-th \<open>Math.random()\<close>, a number in \<open>[0, 1)\<close>; the
    product and \<open>Math.floor\<close> are taken exactly, not in floating point.
\<close>

record ext =
  fetch_keys :: "world \<Rightarrow> source \<Rightarrow> string + raw_key list"
  delete_reply :: "world \<Rightarrow> string \<Rightarrow> string \<Rightarrow> string \<Rightarrow> string + bool"
  upstream :: "world \<Rightarrow> string \<Rightarrow> string + response"
  random :: "nat \<Rightarrow> rat"

definition random_ok :: "ext \<Rightarrow> bool" where
  "random_ok x = (\<forall>n. 0 \<le> random x n \<and> random x n < 1)"

subsection \<open>\<open>loadKeys\<close>\<close>

text \<open>
  Lines 25 to 29: the key server when both of its variables are set, else the file
  \<open>OPENAI_API_KEYS_FILE ?? "keys.json"\<close>.
\<close>

definition key_source :: "ProcessEnv \<Rightarrow> source" where
  "key_source env =
     (if truthy_str (OPENAI_API_KEY_SERVER env) \<and> truthy_str (OPENAI_API_KEY_SERVER_AUTH env)
      then KeyServer (the (OPENAI_API_KEY_SERVER env)) (the (OPENAI_API_KEY_SERVER_AUTH env))
      else LocalFile (case OPENAI_API_KEYS_FILE env of None \<Rightarrow> ''keys.json'' | Some f \<Rightarrow> f))"

text \<open>Lines 31 to 34: every record whose type is not \<open>"gpt-3"\<close> becomes a GPT4 key.\<close>

definition to_Key :: "raw_key \<Rightarrow> Key" where
  "to_Key r = \<lparr>key = fst r, type = (if snd r = ''gpt-3'' then GPT3 else GPT4)\<rparr>"

definition loadKeys :: "ext \<Rightarrow> ProcessEnv \<Rightarrow> world \<Rightarrow> (error + Key list) \<times> world" where
  "loadKeys x env w =
     (let src = key_source env; w' = w\<lparr>loads := loads w @ [src]\<rparr>
      in case fetch_keys x w src of
           Inl e \<Rightarrow> (Inl (External e), w')
         | Inr rs \<Rightarrow> (Inr (map to_Key rs), w'))"

subsection \<open>\<open>getKey\<close>\<close>

text \<open>Line 102, the body of the \<open>forEach\<close>: push the key on the array of its type.\<close>

definition push_key :: "KeyStore \<Rightarrow> Key \<Rightarrow> KeyStore" where
  "push_key p k =
     (if type k = GPT4 then p\<lparr>gpt4keys := gpt4keys p @ [key k]\<rparr>
      else p\<lparr>gpt3keys := gpt3keys p @ [key k]\<rparr>)"

text \<open>
  Lines 101 and 102: unless the flag is set, load the keys and push them on the two
  arrays, which are not emptied first. The exception of \<open>loadKeys\<close>, if any, is the first
  component, and the pool is then as it was.
\<close>

definition populate :: "ext \<Rightarrow> ProcessEnv \<Rightarrow> KeyStore \<times> world \<Rightarrow> error option \<times> KeyStore \<times> world" where
  "populate x env s =
     (case s of (p, w) \<Rightarrow>
        if \<not> initialized p then
          (case loadKeys x env w of
             (Inl e, w') \<Rightarrow> (Some e, p, w')
           | (Inr ks, w') \<Rightarrow> (None, foldl push_key p ks, w'))
        else (None, p, w))"

text \<open>Lines 103 to 105: the array the key is drawn from.\<close>

definition select_keys :: "KeyType \<Rightarrow> KeyStore \<Rightarrow> string list" where
  "select_keys t p =
     (if t = HIGHEST then (if length (gpt4keys p) > 0 then gpt4keys p else gpt3keys p)
      else (if t = GPT3 \<and> length (gpt3keys p) > 0 then gpt3keys p else gpt4keys p))"

text \<open>
  Line 108: \<open>Math.floor(Math.random() * keys.length)\<close>, with the product taken exactly.
  The code takes it in double precision, so for some draws its index is another one;
  like this one it is below the length. What is proved of a key drawn is the array it
  comes from, never which key of the array it is.
\<close>

definition random_index :: "rat \<Rightarrow> nat \<Rightarrow> nat" where
  "random_index u n = nat \<lfloor>u * of_nat n\<rfloor>"

text \<open>Lines 103 to 108. The "no keys" exception of line 106 comes before the flag is set
  in line 107.\<close>

definition pick_key :: "ext \<Rightarrow> KeyType \<Rightarrow> KeyStore \<times> world \<Rightarrow> (error + string) \<times> KeyStore \<times> world" where
  "pick_key x t s =
     (case s of (p, w) \<Rightarrow>
        let keys = select_keys t p
        in if length keys = 0 then (Inl (NoKeysAvailable t), p, w)
           else (Inr (keys ! random_index (random x (draws w)) (length keys)),
                 p\<lparr>initialized := True\<rparr>, w\<lparr>draws := Suc (draws w)\<rparr>))"

text \<open>\<open>getKey\<close>, lines 99 to 109.\<close>

definition getKey :: "ext \<Rightarrow> ProcessEnv \<Rightarrow> KeyType \<Rightarrow> KeyStore \<times> world \<Rightarrow> (error + string) \<times> KeyStore \<times> world" where
  "getKey x env t s =
     (case s of (p, w) \<Rightarrow>
        if truthy_str (OPENAI_API_KEY env) then (Inr (the (OPENAI_API_KEY env)), p, w)
        else
          (case populate x env (p, w) of
             (Some e, p', w') \<Rightarrow> (Inl e, p', w')
           | (None, p', w') \<Rightarrow> pick_key x t (p', w')))"

text \<open>Calls of \<open>getKey\<close> one after the other, each with its tier; a caller that gets an
  exception does not stop the next caller.\<close>

fun getKey_seq :: "ext \<Rightarrow> ProcessEnv \<Rightarrow> KeyType list \<Rightarrow> KeyStore \<times> world \<Rightarrow> (error + string) list \<times> KeyStore \<times> world" where
  "getKey_seq x env [] s = ([], s)"
| "getKey_seq x env (t # ts) s =
     (case getKey x env t s of
        (r, s') \<Rightarrow> (case getKey_seq x env ts s' of (rs, s'') \<Rightarrow> (r # rs, s'')))"

subsection \<open>\<open>deleteKey\<close>\<close>

text \<open>
  \<open>deleteKey\<close>, lines 128 to 143. The exception of line 130 and an exception of the
  \<open>fetch\<close> come before lines 139 to 141; with an answer from the server those three lines
  run whatever the answer says.
\<close>

definition deleteKey :: "ext \<Rightarrow> ProcessEnv \<Rightarrow> string \<Rightarrow> KeyStore \<times> world \<Rightarrow> (error + bool) \<times> KeyStore \<times> world" where
  "deleteKey x env k s =
     (case s of (p, w) \<Rightarrow>
        if \<not> truthy_str (OPENAI_API_KEY_SERVER env) \<or> \<not> truthy_str (OPENAI_API_KEY_SERVER_AUTH env)
        then (Inl KeyServerNotConfigured, p, w)
        else
          (let w' = w\<lparr>deleted := deleted w @ [k]\<rparr>
           in case delete_reply x w (the (OPENAI_API_KEY_SERVER env)) (the (OPENAI_API_KEY_SERVER_AUTH env)) k of
                Inl e \<Rightarrow> (Inl (External e), p, w')
              | Inr success \<Rightarrow> (Inr success, p\<lparr>gpt3keys := [], gpt4keys := [], initialized := False\<rparr>, w')))"

section \<open>The relay: \<open>OpenAIStream\<close> in \<open>src/pages/api/models.ts\<close>\<close>

subsection \<open>JavaScript on parsed JSON\<close>

text \<open>
  \<open>undefined\<close> is \<open>None\<close> of \<open>json option\<close>. The property names the code reads
  (\<open>choices\<close>, \<open>finish_reason\<close>, \<open>delta\<close>, \<open>content\<close>, \<open>error\<close>, \<open>message\<close>, \<open>type\<close>,
  \<open>param\<close>, \<open>code\<close>, \<open>value\<close>) are on no prototype, so only an object can have them. A
  \<open>JObj\<close> lists the properties of the parsed object, each name once.
\<close>

fun own_prop :: "string \<Rightarrow> json \<Rightarrow> json option" where
  "own_prop k (JObj kvs) = map_of kvs k"
| "own_prop k v = None"

text \<open>\<open>v.k\<close>: a \<open>TypeError\<close> on \<open>undefined\<close> and on \<open>null\<close>.\<close>

fun get_prop :: "string \<Rightarrow> json option \<Rightarrow> error + json option" where
  "get_prop k None = Inl TypeError"
| "get_prop k (Some JNull) = Inl TypeError"
| "get_prop k (Some v) = Inr (own_prop k v)"

text \<open>\<open>v[0]\<close>: the first element of an array, the first character of a string, the
  property \<open>"0"\<close> of an object.\<close>

fun get_index0 :: "json option \<Rightarrow> error + json option" where
  "get_index0 None = Inl TypeError"
| "get_index0 (Some JNull) = Inl TypeError"
| "get_index0 (Some (JArr xs)) = Inr (case xs of [] \<Rightarrow> None | y # ys \<Rightarrow> Some y)"
| "get_index0 (Some (JStr s)) = Inr (case s of [] \<Rightarrow> None | c # cs \<Rightarrow> Some (JStr [c]))"
| "get_index0 (Some (JObj kvs)) = Inr (map_of kvs ''0'')"
| "get_index0 (Some v) = Inr None"

fun js_truthy :: "json option \<Rightarrow> bool" where
  "js_truthy None = False"
| "js_truthy (Some JNull) = False"
| "js_truthy (Some (JBool b)) = b"
| "js_truthy (Some (JNum s)) = (s \<noteq> ''0'')"
| "js_truthy (Some (JStr s)) = (s \<noteq> [])"
| "js_truthy (Some v) = True"

text \<open>\<open>String(v)\<close>, which \<open>TextEncoder.encode\<close> applies to an argument that is not a string.\<close>

fun join_comma :: "string list \<Rightarrow> string" where
  "join_comma [] = []"
| "join_comma [s] = s"
| "join_comma (s # t # ts) = s @ '','' @ join_comma (t # ts)"

fun js_to_string :: "json \<Rightarrow> string" where
  "js_to_string JNull = ''null''"
| "js_to_string (JBool b) = (if b then ''true'' else ''false'')"
| "js_to_string (JNum s) = s"
| "js_to_string (JStr s) = s"
| "js_to_string (JArr xs) = join_comma (map (\<lambda>v. if v = JNull then [] else js_to_string v) xs)"
| "js_to_string (JObj kvs) = ''[object Object]''"

text \<open>
  \<open>encoder.encode(text)\<close>: the UTF-8 bytes of the text, none for \<open>undefined\<close>. A model
  string holds its text in UTF-8, one \<open>char\<close> a byte, so encoding keeps the bytes.
\<close>

type_synonym chunk = "char list"

fun encode :: "json option \<Rightarrow> chunk" where
  "encode None = []"
| "encode (Some v) = js_to_string v"

subsection \<open>The output stream\<close>

text \<open>
  The \<open>ReadableStream\<close> and its default controller, as the platform's Streams standard
  defines them: the state, the close request, the queue of chunks not read yet, the
  number of reads waiting for a chunk, the stored error; \<open>delivered\<close> logs the chunks the
  consumer has been given, oldest first.
\<close>

datatype stream_state = Readable | Closed | Errored

record ReadableStream =
  state :: stream_state
  closeRequested :: bool
  queue :: "chunk list"
  readRequests :: nat
  storedError :: "error option"
  delivered :: "chunk list"

definition new_ReadableStream :: ReadableStream where
  "new_ReadableStream =
     \<lparr>state = Readable, closeRequested = False, queue = [], readRequests = 0,
      storedError = None, delivered = []\<rparr>"

definition can_close_or_enqueue :: "ReadableStream \<Rightarrow> bool" where
  "can_close_or_enqueue c = (\<not> closeRequested c \<and> state c = Readable)"

text \<open>The stream closes: reads that wait are answered "done".\<close>

definition stream_close :: "ReadableStream \<Rightarrow> ReadableStream" where
  "stream_close c = c\<lparr>state := Closed, readRequests := 0\<rparr>"

text \<open>\<open>controller.close()\<close> throws when the stream cannot be closed; else it requests the
  close, and the stream closes at once when no chunk is queued.\<close>

definition controller_close :: "ReadableStream \<Rightarrow> error + ReadableStream" where
  "controller_close c =
     (if \<not> can_close_or_enqueue c then Inl TypeError
      else Inr (if queue c = [] then stream_close (c\<lparr>closeRequested := True\<rparr>)
                else c\<lparr>closeRequested := True\<rparr>))"

text \<open>\<open>controller.enqueue(chunk)\<close> throws when the stream cannot take a chunk; else the
  chunk goes to a waiting read, or to the queue.\<close>

definition controller_enqueue :: "chunk \<Rightarrow> ReadableStream \<Rightarrow> error + ReadableStream" where
  "controller_enqueue ch c =
     (if \<not> can_close_or_enqueue c then Inl TypeError
      else Inr (if readRequests c > 0
                then c\<lparr>readRequests := readRequests c - 1, delivered := delivered c @ [ch]\<rparr>
                else c\<lparr>queue := queue c @ [ch]\<rparr>))"

text \<open>\<open>controller.error(e)\<close> does nothing unless the stream is readable; else it drops
  the queue and puts the stream in the error state.\<close>

definition controller_error :: "error \<Rightarrow> ReadableStream \<Rightarrow> ReadableStream" where
  "controller_error e c =
     (if state c \<noteq> Readable then c
      else c\<lparr>queue := [], state := Errored, storedError := Some e, readRequests := 0\<rparr>)"

text \<open>A \<open>read()\<close> of the consumer: the next queued chunk (after the last one a requested
  close takes place), or a wait when the queue is empty; "done" or the error on a stream
  that is closed or in error.\<close>

definition reader_read :: "ReadableStream \<Rightarrow> ReadableStream" where
  "reader_read c =
     (if state c \<noteq> Readable then c
      else case queue c of
             [] \<Rightarrow> c\<lparr>readRequests := Suc (readRequests c)\<rparr>
           | ch # rest \<Rightarrow>
               (let c' = c\<lparr>queue := rest, delivered := delivered c @ [ch]\<rparr>
                in if closeRequested c' \<and> rest = [] then stream_close c' else c'))"

subsection \<open>\<open>onParse\<close>, lines 176 to 193\<close>

text \<open>The \<open>try\<close> block, lines 181 to 188; \<open>Inl\<close> is the exception it throws.\<close>

definition try_block :: "json option \<Rightarrow> ReadableStream \<Rightarrow> error + ReadableStream" where
  "try_block d c =
     (case d of
        None \<Rightarrow> Inl SyntaxError
      | Some j \<Rightarrow>
          (case get_prop ''choices'' (Some j) of Inl e \<Rightarrow> Inl e | Inr choices \<Rightarrow>
          (case get_index0 choices of Inl e \<Rightarrow> Inl e | Inr choice0 \<Rightarrow>
          (case get_prop ''finish_reason'' choice0 of Inl e \<Rightarrow> Inl e | Inr finish_reason \<Rightarrow>
             (if finish_reason \<noteq> None \<and> finish_reason \<noteq> Some JNull then controller_close c
              else
               (case get_prop ''delta'' choice0 of Inl e \<Rightarrow> Inl e | Inr delta \<Rightarrow>
               (case get_prop ''content'' delta of Inl e \<Rightarrow> Inl e | Inr text \<Rightarrow>
                  controller_enqueue (encode text) c)))))))"

fun onParse :: "sse_event \<Rightarrow> ReadableStream \<Rightarrow> ReadableStream" where
  "onParse ReconnectInterval c = c"
| "onParse (ParsedEvent d) c =
     (case try_block d c of Inl e \<Rightarrow> controller_error e c | Inr c' \<Rightarrow> c')"

text \<open>
  What happens to the output stream, in order: the parser hands \<open>onParse\<close> the next
  upstream event (lines 195 to 199), or the consumer reads.
\<close>

datatype action = Upstream sse_event | Read

text \<open>The stream is open: readable, and no close was requested.\<close>

definition streaming :: "ReadableStream \<Rightarrow> bool" where
  "streaming c = (state c = Readable \<and> \<not> closeRequested c)"



fun step :: "action \<Rightarrow> ReadableStream \<Rightarrow> ReadableStream" where
  "step (Upstream ev) c = onParse ev c"
| "step Read c = reader_read c"

fun run :: "action list \<Rightarrow> ReadableStream \<Rightarrow> ReadableStream" where
  "run [] c = c"
| "run (a # as) c = run as (step a c)"

subsection \<open>The call and its retry, lines 110 to 172\<close>

text \<open>Line 117.\<close>

definition keyType_of :: "string \<Rightarrow> KeyType" where
  "keyType_of model_id = (if model_id = ''gpt-4'' then GPT4 else GPT3)"

text \<open>Line 118: a key the caller gave is used unless it is empty.\<close>

definition resolve_key :: "ext \<Rightarrow> ProcessEnv \<Rightarrow> string \<Rightarrow> string \<Rightarrow> KeyStore \<times> world \<Rightarrow> (error + string) \<times> KeyStore \<times> world" where
  "resolve_key x env model_id k s =
     (if k = [] then getKey x env (keyType_of model_id) s
      else (case s of (p, w) \<Rightarrow> (Inr k, p, w)))"

text \<open>
  What lines 154 to 172 make of a response: the body is the stream's input, or the key
  was invalid (line 158), or an exception. In lines 166 to 170 the message is built with
  \<open>decoder.decode(result?.value)\<close>, which itself throws a \<open>TypeError\<close> when the body has
  a \<open>value\<close>, a JSON value being no buffer.
\<close>

datatype verdict = Ok "sse_event list" | InvalidKey | Throw error

definition judge :: "response \<Rightarrow> verdict" where
  "judge res =
     (if status res \<noteq> 200 then
        (case body_json res of
           None \<Rightarrow> Throw SyntaxError
         | Some result \<Rightarrow>
             (case get_prop ''error'' (Some result) of
                Inl e \<Rightarrow> Throw e
              | Inr err \<Rightarrow>
                  if js_truthy err then
                    (if own_prop ''code'' (the err) = Some (JStr ''invalid_api_key'') then InvalidKey
                     else Throw (OpenAIError (own_prop ''message'' (the err)) (own_prop ''type'' (the err))
                                   (own_prop ''param'' (the err)) (own_prop ''code'' (the err))))
                  else if own_prop ''value'' result = None then Throw UpstreamError
                  else Throw TypeError))
      else Ok (body_events res))"

text \<open>A response with a status other than 200 whose body is JSON with \<open>error.code\<close> equal
  to \<open>"invalid_api_key"\<close>.\<close>

definition invalid_key_reply :: "response \<Rightarrow> bool" where
  "invalid_key_reply res =
     (status res \<noteq> 200 \<and>
      (case body_json res of
         None \<Rightarrow> False
       | Some body \<Rightarrow>
           (case own_prop ''error'' body of
              None \<Rightarrow> False
            | Some err \<Rightarrow> own_prop ''code'' err = Some (JStr ''invalid_api_key''))))"

text \<open>
  \<open>OpenAIStream\<close>. The first argument bounds the number of upstream calls, which the code
  does not: the result \<open>None\<close> says that this many calls did not end the retries. The
  result \<open>Some (Inr evs)\<close> is the returned stream, given by the events it will be fed.
\<close>

fun OpenAIStream :: "nat \<Rightarrow> ext \<Rightarrow> ProcessEnv \<Rightarrow> string \<Rightarrow> string \<Rightarrow> KeyStore \<times> world \<Rightarrow> (error + sse_event list) option \<times> KeyStore \<times> world" where
  "OpenAIStream 0 x env model_id k s = (None, s)"
| "OpenAIStream (Suc n) x env model_id k s =
     (case resolve_key x env model_id k s of
        (Inl e, p1, w1) \<Rightarrow> (Some (Inl e), p1, w1)
      | (Inr k1, p1, w1) \<Rightarrow>
          (let w2 = w1\<lparr>calls := calls w1 @ [k1]\<rparr>
           in case upstream x w1 k1 of
                Inl e \<Rightarrow> (Some (Inl (External e)), p1, w2)
              | Inr res \<Rightarrow>
                  (case judge res of
                     Ok evs \<Rightarrow> (Some (Inr evs), p1, w2)
                   | Throw e \<Rightarrow> (Some (Inl e), p1, w2)
                   | InvalidKey \<Rightarrow>
                       (case deleteKey x env k1 (p1, w2) of
                          (Inl e, p3, w3) \<Rightarrow> (Some (Inl e), p3, w3)
                        | (Inr b, p3, w3) \<Rightarrow>
                            (case getKey x env HIGHEST (p3, w3) of
                               (Inl e, p4, w4) \<Rightarrow> (Some (Inl e), p4, w4)
                             | (Inr k2, p4, w4) \<Rightarrow> OpenAIStream n x env model_id k2 (p4, w4))))))"


section \<open>Sample configurations\<close>

text \<open>Three environments: a key server, a local key file, and a static key next to a
  key server.\<close>

definition env_server :: ProcessEnv where
  "env_server =
     \<lparr>OPENAI_API_KEY = None, OPENAI_API_KEY_SERVER = Some ''keys.local'',
      OPENAI_API_KEY_SERVER_AUTH = Some ''secret'', OPENAI_API_KEYS_FILE = None\<rparr>"

definition env_file :: ProcessEnv where
  "env_file =
     \<lparr>OPENAI_API_KEY = None, OPENAI_API_KEY_SERVER = None,
      OPENAI_API_KEY_SERVER_AUTH = None, OPENAI_API_KEYS_FILE = None\<rparr>"

definition env_override :: ProcessEnv where
  "env_override =
     \<lparr>OPENAI_API_KEY = Some ''sk-static'', OPENAI_API_KEY_SERVER = Some ''keys.local'',
      OPENAI_API_KEY_SERVER_AUTH = Some ''secret'', OPENAI_API_KEYS_FILE = None\<rparr>"

text \<open>The two upstream answers of the samples: the 401 of a rejected key, and a stream
  of three events.\<close>

definition invalid_key_response :: response where
  "invalid_key_response =
     \<lparr>status = 401,
      body_json = Some (JObj [(''error'', JObj [(''code'', JStr ''invalid_api_key''),
                                               (''message'', JStr ''Incorrect API key'')])]),
      body_events = []\<rparr>"

definition delta_event :: "string \<Rightarrow> sse_event" where
  "delta_event s =
     ParsedEvent (Some (JObj [(''choices'', JArr [JObj [(''delta'', JObj [(''content'', JStr s)])]])]))"

definition finish_event :: sse_event where
  "finish_event =
     ParsedEvent (Some (JObj [(''choices'', JArr [JObj [(''finish_reason'', JStr ''stop''),
                                                       (''delta'', JObj [])]])]))"

definition hello_events :: "sse_event list" where
  "hello_events = [delta_event ''Hel'', delta_event ''lo'', finish_event]"

definition ok_response :: response where
  "ok_response = \<lparr>status = 200, body_json = None, body_events = hello_events\<rparr>"

text \<open>
  A simulated outside world: a key source that lists the records \<open>ks\<close> less the keys
  deleted so far, whose \<open>/deleteKey\<close> reports success for a key it lists; an upstream that
  rejects the keys of \<open>revoked\<close>; \<open>Math.random()\<close> always 0.
\<close>

definition sim_ext :: "raw_key list \<Rightarrow> string list \<Rightarrow> ext" where
  "sim_ext ks revoked =
     \<lparr>fetch_keys = (\<lambda>w src. Inr (filter (\<lambda>r. fst r \<notin> set (deleted w)) ks)),
      delete_reply = (\<lambda>w srv auth k. Inr (k \<in> set (map fst ks) \<and> k \<notin> set (deleted w))),
      upstream = (\<lambda>w k. Inr (if k \<in> set revoked then invalid_key_response else ok_response)),
      random = (\<lambda>n. 0)\<rparr>"

section \<open>Properties of the credential pool\<close>

lemma random_index_less: "0 \<le> u \<Longrightarrow> u < 1 \<Longrightarrow> 0 < n \<Longrightarrow> random_index u n < n"
proof -
  assume u0: "0 \<le> u" and u1: "u < 1" and n: "0 < n"
  have "u * of_nat n < of_nat n" using u1 n by simp
  then have "\<lfloor>u * of_nat n\<rfloor> < int n" by (simp add: floor_less_iff)
  moreover have "0 \<le> \<lfloor>u * of_nat n\<rfloor>" using u0 by simp
  ultimately show ?thesis unfolding random_index_def by linarith
qed

lemma foldl_push_key_initialized: "initialized (foldl push_key p ks) = initialized p"
  by (induction ks arbitrary: p) (simp_all add: push_key_def)

lemma foldl_push_key_gpt3:
  "gpt3keys (foldl push_key p ks) = gpt3keys p @ map key (filter (\<lambda>k. type k \<noteq> GPT4) ks)"
  by (induction ks arbitrary: p) (simp_all add: push_key_def)

lemma foldl_push_key_gpt4:
  "gpt4keys (foldl push_key p ks) = gpt4keys p @ map key (filter (\<lambda>k. type k = GPT4) ks)"
  by (induction ks arbitrary: p) (simp_all add: push_key_def)

lemma pick_key_in:
  assumes "random_ok x" "select_keys t p \<noteq> []"
  shows "\<exists>k \<in> set (select_keys t p). pick_key x t (p, w) = (Inr k, p\<lparr>initialized := True\<rparr>, w\<lparr>draws := Suc (draws w)\<rparr>)"
proof -
  have "random_index (random x (draws w)) (length (select_keys t p)) < length (select_keys t p)"
    using assms by (intro random_index_less) (simp_all add: random_ok_def)
  then show ?thesis using assms(2) by (simp add: pick_key_def Let_def)
qed

lemma pick_key_empty:
  "select_keys t p = [] \<Longrightarrow> pick_key x t (p, w) = (Inl (NoKeysAvailable t), p, w)"
  by (simp add: pick_key_def)

lemma pick_key_fst:
  assumes "random_ok x"
  shows "fst (pick_key x t (p, w)) \<in>
      (if select_keys t p \<noteq> [] then Inr ` set (select_keys t p) else {Inl (NoKeysAvailable t)})"
proof (cases "select_keys t p = []")
  case True
  then show ?thesis by (simp add: pick_key_empty)
next
  case False
  from pick_key_in [OF assms False, of w] obtain k where
    "k \<in> set (select_keys t p)" "fst (pick_key x t (p, w)) = Inr k" by auto
  with False show ?thesis by auto
qed

text \<open>
  Claim C9. With a static key configured (\<open>OPENAI_API_KEY\<close> set to a non-empty string),
  \<open>getKey\<close> returns that key for every tier and every pool state; the pool (both arrays
  and the flag) and the log of the outside world, loads included, are as before the call.
\<close>

theorem getKey_override:
  assumes "OPENAI_API_KEY env = Some k" and "k \<noteq> []"
  shows "getKey x env t (p, w) = (Inr k, p, w)"
  using assms by (simp add: getKey_def)

theorem getKey_override_witness:
  "OPENAI_API_KEY env_override = Some ''sk-static'' \<and> ''sk-static'' \<noteq> []
   \<and> getKey (sim_ext [] []) env_override GPT3 (KeyStore_init, world_init) = (Inr ''sk-static'', KeyStore_init, world_init)"
  using getKey_override [of env_override "''sk-static''" "sim_ext [] []" GPT3 KeyStore_init world_init]
  by (simp add: env_override_def)

text \<open>
  Claim C6. Without a static key, on the pool \<open>p1\<close> as it is once populated: tier
  \<open>HIGHEST\<close> draws from the GPT-4 array whenever it is not empty and else from the GPT-3
  array; tier \<open>GPT3\<close> draws from the GPT-3 array if it is not empty and else from the GPT-4
  array; and the call fails, with the "no keys" error, exactly when the array left after
  this fallback is empty.
\<close>

theorem getKey_tier:
  assumes "\<not> truthy_str (OPENAI_API_KEY env)" and "random_ok x"
    and "populate x env (p, w) = (None, p1, w1)"
  shows "fst (getKey x env HIGHEST (p, w)) \<in>
           (if gpt4keys p1 \<noteq> [] then Inr ` set (gpt4keys p1)
            else if gpt3keys p1 \<noteq> [] then Inr ` set (gpt3keys p1)
            else {Inl (NoKeysAvailable HIGHEST)})
       \<and> fst (getKey x env GPT3 (p, w)) \<in>
           (if gpt3keys p1 \<noteq> [] then Inr ` set (gpt3keys p1)
            else if gpt4keys p1 \<noteq> [] then Inr ` set (gpt4keys p1)
            else {Inl (NoKeysAvailable GPT3)})"
proof -
  have g: "getKey x env t (p, w) = pick_key x t (p1, w1)" for t
    using assms(1,3) by (simp add: getKey_def)
  show ?thesis
    using pick_key_fst [OF assms(2), of HIGHEST p1 w1] pick_key_fst [OF assms(2), of GPT3 p1 w1]
    by (auto simp: g select_keys_def split: if_splits)
qed

theorem getKey_tier_witness:
  "\<not> truthy_str (OPENAI_API_KEY env_server)
   \<and> random_ok (sim_ext [(''sk-3'', ''gpt-3''), (''sk-4'', ''gpt-4'')] [])
   \<and> populate (sim_ext [(''sk-3'', ''gpt-3''), (''sk-4'', ''gpt-4'')] []) env_server (KeyStore_init, world_init)
       = (None, \<lparr>initialized = False, gpt3keys = [''sk-3''], gpt4keys = [''sk-4'']\<rparr>,
          world_init\<lparr>loads := [KeyServer ''keys.local'' ''secret'']\<rparr>)
   \<and> fst (getKey (sim_ext [(''sk-3'', ''gpt-3''), (''sk-4'', ''gpt-4'')] []) env_server HIGHEST (KeyStore_init, world_init)) = Inr ''sk-4''
   \<and> fst (getKey (sim_ext [(''sk-3'', ''gpt-3''), (''sk-4'', ''gpt-4'')] []) env_server GPT3 (KeyStore_init, world_init)) = Inr ''sk-3''"
proof -
  let ?x = "sim_ext [(''sk-3'', ''gpt-3''), (''sk-4'', ''gpt-4'')] []"
  have h1: "\<not> truthy_str (OPENAI_API_KEY env_server)" by (simp add: env_server_def)
  have h2: "random_ok ?x" by (simp add: random_ok_def sim_ext_def)
  have h3: "populate ?x env_server (KeyStore_init, world_init)
       = (None, \<lparr>initialized = False, gpt3keys = [''sk-3''], gpt4keys = [''sk-4'']\<rparr>,
          world_init\<lparr>loads := [KeyServer ''keys.local'' ''secret'']\<rparr>)"
    by (simp add: populate_def loadKeys_def key_source_def env_server_def sim_ext_def
        KeyStore_init_def world_init_def to_Key_def push_key_def)
  from getKey_tier [OF h1 h2 h3] h1 h2 h3 show ?thesis by simp
qed

text \<open>The third tier, \<open>GPT4\<close> (a request for the model \<open>gpt-4\<close>), has no fallback: it
  draws from the GPT-4 array only and fails when that array is empty.\<close>

lemma getKey_tier_GPT4:
  assumes "\<not> truthy_str (OPENAI_API_KEY env)" and "random_ok x"
    and "populate x env (p, w) = (None, p1, w1)"
  shows "fst (getKey x env GPT4 (p, w)) \<in>
           (if gpt4keys p1 \<noteq> [] then Inr ` set (gpt4keys p1) else {Inl (NoKeysAvailable GPT4)})"
proof -
  have "getKey x env GPT4 (p, w) = pick_key x GPT4 (p1, w1)"
    using assms(1,3) by (simp add: getKey_def)
  then show ?thesis
    using pick_key_fst [OF assms(2), of GPT4 p1 w1] by (auto simp: select_keys_def split: if_splits)
qed

lemma getKey_initialized:
  assumes "initialized p" and "getKey x env t (p, w) = (r, p', w')"
  shows "loads w' = loads w \<and> p' = p"
  using assms
  by (auto simp: getKey_def populate_def pick_key_def Let_def split: if_splits)

lemma getKey_seq_initialized:
  "initialized p \<Longrightarrow> getKey_seq x env ts (p, w) = (rs, p', w') \<Longrightarrow> loads w' = loads w \<and> p' = p"
proof (induction ts arbitrary: w rs)
  case Nil
  then show ?case by simp
next
  case (Cons t ts)
  obtain r pa wa where g: "getKey x env t (p, w) = (r, pa, wa)" by (cases "getKey x env t (p, w)") auto
  from getKey_initialized [OF Cons.prems(1) g] have a: "loads wa = loads w" "pa = p" by auto
  obtain rs' where "getKey_seq x env ts (p, wa) = (rs', p', w')"
    using Cons.prems(2) g a by (auto split: prod.splits)
  from Cons.IH [OF Cons.prems(1) this] a show ?case by simp
qed

lemma loaded_gpt3: "map key (filter (\<lambda>k. type k \<noteq> GPT4) (map to_Key rs)) = map fst (filter (\<lambda>r. snd r = ''gpt-3'') rs)"
  by (induction rs) (simp_all add: to_Key_def)

lemma loaded_gpt4: "map key (filter (\<lambda>k. type k = GPT4) (map to_Key rs)) = map fst (filter (\<lambda>r. snd r \<noteq> ''gpt-3'') rs)"
  by (induction rs) (simp_all add: to_Key_def)

lemma populate_uninitialized:
  assumes "\<not> initialized p"
  shows "populate x env (p, w) =
     (case fetch_keys x w (key_source env) of
        Inl e \<Rightarrow> (Some (External e), p, w\<lparr>loads := loads w @ [key_source env]\<rparr>)
      | Inr recs \<Rightarrow> (None, foldl push_key p (map to_Key recs), w\<lparr>loads := loads w @ [key_source env]\<rparr>))"
  using assms by (simp add: populate_def loadKeys_def Let_def split: sum.splits)

lemma getKey_first:
  assumes "\<not> truthy_str (OPENAI_API_KEY env)" and "\<not> initialized p"
    and "getKey x env t (p, w) = (Inr k, p1, w1)"
  shows "\<exists>recs. fetch_keys x w (key_source env) = Inr recs
      \<and> loads w1 = loads w @ [key_source env]
      \<and> gpt3keys p1 = gpt3keys p @ map fst (filter (\<lambda>r. snd r = ''gpt-3'') recs)
      \<and> gpt4keys p1 = gpt4keys p @ map fst (filter (\<lambda>r. snd r \<noteq> ''gpt-3'') recs)
      \<and> initialized p1"
  using assms
  by (auto simp: getKey_def populate_uninitialized pick_key_def Let_def
      foldl_push_key_gpt3 foldl_push_key_gpt4 loaded_gpt3 loaded_gpt4 split: sum.splits if_splits)

text \<open>
  Claim C7, as amended. Without a static key and with no \<open>deleteKey\<close> in between: when the
  first \<open>getKey\<close> on the empty pool whose flag is not set (the pool of process start, and
  of the time after a \<open>deleteKey\<close>) returns a key, the source was loaded once, in that
  call; its records went to the two arrays by type; the flag is set; and no later
  \<open>getKey\<close>, whatever its tier, loads again or changes the pool.
\<close>

theorem getKey_loads_once:
  assumes "\<not> truthy_str (OPENAI_API_KEY env)"
    and "getKey x env t (KeyStore_init, w) = (Inr k, p1, w1)"
    and "getKey_seq x env ts (p1, w1) = (rs, p2, w2)"
  shows "\<exists>recs. fetch_keys x w (key_source env) = Inr recs
      \<and> loads w1 = loads w @ [key_source env]
      \<and> gpt3keys p1 = map fst (filter (\<lambda>r. snd r = ''gpt-3'') recs)
      \<and> gpt4keys p1 = map fst (filter (\<lambda>r. snd r \<noteq> ''gpt-3'') recs)
      \<and> initialized p1 \<and> loads w2 = loads w1 \<and> p2 = p1"
proof -
  have "\<not> initialized KeyStore_init" by (simp add: KeyStore_init_def)
  from getKey_first [OF assms(1) this assms(2)] obtain recs where
    a: "fetch_keys x w (key_source env) = Inr recs"
      "loads w1 = loads w @ [key_source env]"
      "gpt3keys p1 = map fst (filter (\<lambda>r. snd r = ''gpt-3'') recs)"
      "gpt4keys p1 = map fst (filter (\<lambda>r. snd r \<noteq> ''gpt-3'') recs)"
      "initialized p1" by (auto simp: KeyStore_init_def)
  from getKey_seq_initialized [OF a(5) assms(3)] have "loads w2 = loads w1 \<and> p2 = p1" .
  with a show ?thesis by blast
qed

theorem getKey_loads_once_witness:
  "\<not> truthy_str (OPENAI_API_KEY env_server)
   \<and> getKey (sim_ext [(''sk-3'', ''gpt-3''), (''sk-4'', ''gpt-4'')] []) env_server GPT3 (KeyStore_init, world_init)
       = (Inr ''sk-3'', \<lparr>initialized = True, gpt3keys = [''sk-3''], gpt4keys = [''sk-4'']\<rparr>,
          world_init\<lparr>loads := [KeyServer ''keys.local'' ''secret''], draws := 1\<rparr>)
   \<and> getKey_seq (sim_ext [(''sk-3'', ''gpt-3''), (''sk-4'', ''gpt-4'')] []) env_server [HIGHEST, GPT4, GPT3]
        (\<lparr>initialized = True, gpt3keys = [''sk-3''], gpt4keys = [''sk-4'']\<rparr>,
         world_init\<lparr>loads := [KeyServer ''keys.local'' ''secret''], draws := 1\<rparr>)
       = ([Inr ''sk-4'', Inr ''sk-4'', Inr ''sk-3''],
          \<lparr>initialized = True, gpt3keys = [''sk-3''], gpt4keys = [''sk-4'']\<rparr>,
          world_init\<lparr>loads := [KeyServer ''keys.local'' ''secret''], draws := 4\<rparr>)
   \<and> loads (world_init\<lparr>loads := [KeyServer ''keys.local'' ''secret''], draws := 4\<rparr>)
       = loads (world_init\<lparr>loads := [KeyServer ''keys.local'' ''secret''], draws := 1\<rparr>)"
proof -
  let ?x = "sim_ext [(''sk-3'', ''gpt-3''), (''sk-4'', ''gpt-4'')] []"
  let ?p1 = "\<lparr>initialized = True, gpt3keys = [''sk-3''], gpt4keys = [''sk-4'']\<rparr>"
  have h1: "\<not> truthy_str (OPENAI_API_KEY env_server)" by (simp add: env_server_def)
  have h3: "getKey ?x env_server GPT3 (KeyStore_init, world_init)
       = (Inr ''sk-3'', ?p1, world_init\<lparr>loads := [KeyServer ''keys.local'' ''secret''], draws := 1\<rparr>)"
    by (simp add: getKey_def populate_def loadKeys_def key_source_def env_server_def sim_ext_def
        KeyStore_init_def world_init_def to_Key_def push_key_def pick_key_def select_keys_def
        random_index_def)
  have h4: "getKey_seq ?x env_server [HIGHEST, GPT4, GPT3]
        (?p1, world_init\<lparr>loads := [KeyServer ''keys.local'' ''secret''], draws := 1\<rparr>)
       = ([Inr ''sk-4'', Inr ''sk-4'', Inr ''sk-3''], ?p1,
          world_init\<lparr>loads := [KeyServer ''keys.local'' ''secret''], draws := 4\<rparr>)"
    by (simp add: getKey_def populate_def env_server_def sim_ext_def
        world_init_def pick_key_def select_keys_def random_index_def)
  from getKey_loads_once [OF h1 h3 h4] h1 h3 h4 show ?thesis by blast
qed

text \<open>
  Claim C7 as stated fails when the first call returns no key: the flag stays unset
  (line 106 throws before line 107), and the next call loads again. Here the source is
  empty and two calls load twice.
\<close>

theorem getKey_reload_counterexample:
  "getKey_seq (sim_ext [] []) env_file [HIGHEST, HIGHEST] (KeyStore_init, world_init)
     = ([Inl (NoKeysAvailable HIGHEST), Inl (NoKeysAvailable HIGHEST)], KeyStore_init,
        world_init\<lparr>loads := [LocalFile ''keys.json'', LocalFile ''keys.json'']\<rparr>)"
  by (simp add: getKey_def populate_def loadKeys_def key_source_def env_file_def sim_ext_def
      KeyStore_init_def world_init_def pick_key_def select_keys_def)

text \<open>
  Claim C1, as amended. When \<open>deleteKey\<close> throws (no key server configured, or the
  request fails), the pool is as it was. Whenever the key server answers, both arrays
  are emptied and the flag is reset, whether the answer reports success or failure, and
  the reported flag is returned.
\<close>

theorem deleteKey_effect:
  "fst (snd (deleteKey x env k (p, w))) =
     (case fst (deleteKey x env k (p, w)) of
        Inl e \<Rightarrow> p
      | Inr success \<Rightarrow> p\<lparr>gpt3keys := [], gpt4keys := [], initialized := False\<rparr>)
   \<and> fst (deleteKey x env k (p, w)) =
     (if \<not> truthy_str (OPENAI_API_KEY_SERVER env) \<or> \<not> truthy_str (OPENAI_API_KEY_SERVER_AUTH env)
      then Inl KeyServerNotConfigured
      else (case delete_reply x w (the (OPENAI_API_KEY_SERVER env)) (the (OPENAI_API_KEY_SERVER_AUTH env)) k of
              Inl e \<Rightarrow> Inl (External e)
            | Inr success \<Rightarrow> Inr success))"
  by (simp add: deleteKey_def Let_def split: sum.splits)

theorem deleteKey_effect_witness:
  "fst (deleteKey (sim_ext [(''sk-3'', ''gpt-3'')] []) env_server ''sk-3''
         (\<lparr>initialized = True, gpt3keys = [''sk-3''], gpt4keys = []\<rparr>, world_init)) = Inr True
   \<and> fst (snd (deleteKey (sim_ext [(''sk-3'', ''gpt-3'')] []) env_server ''sk-3''
         (\<lparr>initialized = True, gpt3keys = [''sk-3''], gpt4keys = []\<rparr>, world_init)))
       = \<lparr>initialized = False, gpt3keys = [], gpt4keys = []\<rparr>
   \<and> fst (deleteKey (sim_ext [(''sk-3'', ''gpt-3'')] []) env_file ''sk-3''
         (\<lparr>initialized = True, gpt3keys = [''sk-3''], gpt4keys = []\<rparr>, world_init)) = Inl KeyServerNotConfigured
   \<and> fst (snd (deleteKey (sim_ext [(''sk-3'', ''gpt-3'')] []) env_file ''sk-3''
         (\<lparr>initialized = True, gpt3keys = [''sk-3''], gpt4keys = []\<rparr>, world_init)))
       = \<lparr>initialized = True, gpt3keys = [''sk-3''], gpt4keys = []\<rparr>"
  using deleteKey_effect [of "sim_ext [(''sk-3'', ''gpt-3'')] []" env_server "''sk-3''"
      "\<lparr>initialized = True, gpt3keys = [''sk-3''], gpt4keys = []\<rparr>" world_init]
    deleteKey_effect [of "sim_ext [(''sk-3'', ''gpt-3'')] []" env_file "''sk-3''"
      "\<lparr>initialized = True, gpt3keys = [''sk-3''], gpt4keys = []\<rparr>" world_init]
  by (simp add: env_server_def env_file_def sim_ext_def world_init_def)

text \<open>
  Claim C1 as stated fails: the server reports failure for a key it does not list,
  \<open>deleteKey\<close> returns false, and the pool that held a key and was initialized is empty
  and not initialized afterwards.
\<close>

theorem deleteKey_failure_counterexample:
  "deleteKey (sim_ext [(''sk-3'', ''gpt-3'')] []) env_server ''sk-unknown''
      (\<lparr>initialized = True, gpt3keys = [''sk-3''], gpt4keys = []\<rparr>, world_init)
    = (Inr False, \<lparr>initialized = False, gpt3keys = [], gpt4keys = []\<rparr>,
       world_init\<lparr>deleted := [''sk-unknown'']\<rparr>)"
  by (simp add: deleteKey_def env_server_def sim_ext_def world_init_def)


lemma deleteKey_success_state:
  assumes "deleteKey x env c (p, w) = (Inr b, p1, w1)"
  shows "p1 = p\<lparr>gpt3keys := [], gpt4keys := [], initialized := False\<rparr> \<and> w1 = w\<lparr>deleted := deleted w @ [c]\<rparr>
     \<and> truthy_str (OPENAI_API_KEY_SERVER env) \<and> truthy_str (OPENAI_API_KEY_SERVER_AUTH env)"
  using assms by (auto simp: deleteKey_def Let_def split: if_splits sum.splits)

lemma select_keys_subset: "set (select_keys t p) \<subseteq> set (gpt3keys p) \<union> set (gpt4keys p)"
  by (auto simp: select_keys_def)

lemma pick_key_result:
  assumes "random_ok x" and "pick_key x t (p, w) = (r, p', w')"
  shows "w' = w\<lparr>draws := draws w'\<rparr> \<and> (\<forall>k. r = Inr k \<longrightarrow> k \<in> set (gpt3keys p) \<union> set (gpt4keys p))"
proof (cases "select_keys t p = []")
  case True
  with assms(2) show ?thesis by (auto simp: pick_key_empty)
next
  case False
  from pick_key_in [OF assms(1) False, of w] assms(2) select_keys_subset [of t p]
  show ?thesis by auto
qed

text \<open>
  Claim C8, as amended. Without a static key: after \<open>deleteKey c\<close> has returned true, and
  with a key source that no longer lists \<open>c\<close>, the next \<open>getKey\<close> loads the source exactly
  once and does not return \<open>c\<close>.
\<close>

theorem deleteKey_then_getKey:
  assumes "\<not> truthy_str (OPENAI_API_KEY env)" and "random_ok x"
    and "deleteKey x env c (p, w) = (Inr True, p1, w1)"
    and "case fetch_keys x w1 (key_source env) of Inl e \<Rightarrow> True | Inr recs \<Rightarrow> c \<notin> fst ` set recs"
    and "getKey x env t (p1, w1) = (r, p2, w2)"
  shows "loads w2 = loads w1 @ [key_source env] \<and> r \<noteq> Inr c"
proof -
  from deleteKey_success_state [OF assms(3)]
  have p1: "p1 = p\<lparr>gpt3keys := [], gpt4keys := [], initialized := False\<rparr>" by simp
  then have ni: "\<not> initialized p1" by simp
  let ?w = "w1\<lparr>loads := loads w1 @ [key_source env]\<rparr>"
  show ?thesis
  proof (cases "fetch_keys x w1 (key_source env)")
    case (Inl e)
    with assms(1,5) ni show ?thesis
      by (auto simp: getKey_def populate_uninitialized)
  next
    case (Inr recs)
    let ?q = "foldl push_key p1 (map to_Key recs)"
    from Inr assms(1,5) ni have pk: "pick_key x t (?q, ?w) = (r, p2, w2)"
      by (simp add: getKey_def populate_uninitialized)
    from pick_key_result [OF assms(2) pk]
    have w2: "w2 = ?w\<lparr>draws := draws w2\<rparr>"
      and mem: "\<forall>k. r = Inr k \<longrightarrow> k \<in> set (gpt3keys ?q) \<union> set (gpt4keys ?q)" by auto
    have "set (gpt3keys ?q) \<union> set (gpt4keys ?q) \<subseteq> fst ` set recs"
      by (auto simp: p1 foldl_push_key_gpt3 foldl_push_key_gpt4 loaded_gpt3 loaded_gpt4)
    moreover have "c \<notin> fst ` set recs" using assms(4) Inr by simp
    ultimately have "r \<noteq> Inr c" using mem by blast
    moreover have "loads w2 = loads w1 @ [key_source env]" by (subst w2) simp
    ultimately show ?thesis by simp
  qed
qed

theorem deleteKey_then_getKey_witness:
  "\<not> truthy_str (OPENAI_API_KEY env_server)
   \<and> random_ok (sim_ext [(''sk-3'', ''gpt-3''), (''sk-4'', ''gpt-4'')] [])
   \<and> deleteKey (sim_ext [(''sk-3'', ''gpt-3''), (''sk-4'', ''gpt-4'')] []) env_server ''sk-4''
        (\<lparr>initialized = True, gpt3keys = [''sk-3''], gpt4keys = [''sk-4'']\<rparr>, world_init)
       = (Inr True, KeyStore_init, world_init\<lparr>deleted := [''sk-4'']\<rparr>)
   \<and> fetch_keys (sim_ext [(''sk-3'', ''gpt-3''), (''sk-4'', ''gpt-4'')] [])
          (world_init\<lparr>deleted := [''sk-4'']\<rparr>) (key_source env_server) = Inr [(''sk-3'', ''gpt-3'')]
   \<and> getKey (sim_ext [(''sk-3'', ''gpt-3''), (''sk-4'', ''gpt-4'')] []) env_server HIGHEST
        (KeyStore_init, world_init\<lparr>deleted := [''sk-4'']\<rparr>)
       = (Inr ''sk-3'', \<lparr>initialized = True, gpt3keys = [''sk-3''], gpt4keys = []\<rparr>,
          world_init\<lparr>deleted := [''sk-4''], loads := [KeyServer ''keys.local'' ''secret''], draws := 1\<rparr>)
   \<and> Inr ''sk-3'' \<noteq> (Inr ''sk-4'' :: error + string)"
proof -
  let ?x = "sim_ext [(''sk-3'', ''gpt-3''), (''sk-4'', ''gpt-4'')] []"
  have h1: "\<not> truthy_str (OPENAI_API_KEY env_server)" by (simp add: env_server_def)
  have h2: "random_ok ?x" by (simp add: random_ok_def sim_ext_def)
  have h3: "deleteKey ?x env_server ''sk-4''
        (\<lparr>initialized = True, gpt3keys = [''sk-3''], gpt4keys = [''sk-4'']\<rparr>, world_init)
       = (Inr True, KeyStore_init, world_init\<lparr>deleted := [''sk-4'']\<rparr>)"
    by (simp add: deleteKey_def env_server_def sim_ext_def world_init_def KeyStore_init_def)
  have f: "fetch_keys ?x (world_init\<lparr>deleted := [''sk-4'']\<rparr>) (key_source env_server) = Inr [(''sk-3'', ''gpt-3'')]"
    by (simp add: sim_ext_def world_init_def)
  have h4: "case fetch_keys ?x (world_init\<lparr>deleted := [''sk-4'']\<rparr>) (key_source env_server) of
              Inl e \<Rightarrow> True | Inr recs \<Rightarrow> ''sk-4'' \<notin> fst ` set recs"
    by (simp add: f)
  have h5: "getKey ?x env_server HIGHEST (KeyStore_init, world_init\<lparr>deleted := [''sk-4'']\<rparr>)
       = (Inr ''sk-3'', \<lparr>initialized = True, gpt3keys = [''sk-3''], gpt4keys = []\<rparr>,
          world_init\<lparr>deleted := [''sk-4''], loads := [KeyServer ''keys.local'' ''secret''], draws := 1\<rparr>)"
    by (simp add: getKey_def populate_def loadKeys_def key_source_def env_server_def sim_ext_def
        KeyStore_init_def world_init_def to_Key_def push_key_def pick_key_def select_keys_def
        random_index_def)
  from deleteKey_then_getKey [OF h1 h2 h3 h4 h5] h1 h2 h3 f h5 show ?thesis by blast
qed

text \<open>
  Claim C8 as stated fails with a static key configured: \<open>deleteKey\<close> of that key returns
  true, and the next \<open>getKey\<close> returns the same key and loads nothing.
\<close>

theorem deleteKey_then_getKey_counterexample:
  "deleteKey (sim_ext [(''sk-static'', ''gpt-4'')] []) env_override ''sk-static'' (KeyStore_init, world_init)
     = (Inr True, KeyStore_init, world_init\<lparr>deleted := [''sk-static'']\<rparr>)
   \<and> getKey (sim_ext [(''sk-static'', ''gpt-4'')] []) env_override HIGHEST
        (KeyStore_init, world_init\<lparr>deleted := [''sk-static'']\<rparr>)
     = (Inr ''sk-static'', KeyStore_init, world_init\<lparr>deleted := [''sk-static'']\<rparr>)
   \<and> loads (world_init\<lparr>deleted := [''sk-static'']\<rparr>) = []"
  by (simp add: deleteKey_def getKey_def env_override_def sim_ext_def world_init_def KeyStore_init_def)

section \<open>Properties of the output stream\<close>

lemma onParse_terminal: "state c \<noteq> Readable \<Longrightarrow> onParse ev c = c"
  by (cases ev)
    (auto simp: try_block_def controller_close_def controller_enqueue_def controller_error_def
      can_close_or_enqueue_def split: sum.splits option.splits)

lemma reader_read_terminal: "state c \<noteq> Readable \<Longrightarrow> reader_read c = c"
  by (simp add: reader_read_def)

lemma step_terminal: "state c \<noteq> Readable \<Longrightarrow> step a c = c"
  by (cases a) (simp_all add: onParse_terminal reader_read_terminal)

lemma run_terminal: "state c \<noteq> Readable \<Longrightarrow> run acts c = c"
  by (induction acts) (simp_all add: step_terminal)

lemma onParse_bad:
  "state c = Readable \<Longrightarrow>
   onParse (ParsedEvent None) c = c\<lparr>queue := [], state := Errored, storedError := Some SyntaxError, readRequests := 0\<rparr>"
  by (simp add: try_block_def controller_error_def)














text \<open>With no read at all, the three events leave both chunks queued and the close
  requested.\<close>

lemma hello_producer_only:
  "run (map Upstream hello_events) new_ReadableStream
     = \<lparr>state = Readable, closeRequested = True, queue = [''Hel'', ''lo''], readRequests = 0,
        storedError = None, delivered = []\<rparr>"
  by (simp add: hello_events_def delta_event_def finish_event_def try_block_def
      controller_enqueue_def controller_close_def can_close_or_enqueue_def new_ReadableStream_def)

text \<open>
  A stream \<open>c\<close> that is closed or in error stays exactly as it is under every further
  event and read, so it emits nothing more. On a stream \<open>d\<close> that is open, a record that
  is not valid JSON puts the stream in the error state at that record, and whatever
  follows changes nothing: the consumer is given no further bytes.
\<close>

lemma stream_terminal:
  assumes "state c \<noteq> Readable" and "streaming d"
  shows "run acts c = c
       \<and> run (Upstream (ParsedEvent None) # acts') d
           = d\<lparr>queue := [], state := Errored, storedError := Some SyntaxError, readRequests := 0\<rparr>"
proof -
  let ?e = "d\<lparr>queue := [], state := Errored, storedError := Some SyntaxError, readRequests := 0\<rparr>"
  from assms(2) have r: "state d = Readable" by (simp add: streaming_def)
  have e: "onParse (ParsedEvent None) d = ?e" by (rule onParse_bad [OF r])
  have "state ?e \<noteq> Readable" by simp
  then have "run acts' ?e = ?e" by (rule run_terminal)
  then have "run (Upstream (ParsedEvent None) # acts') d = ?e"
    by (simp add: e del: onParse.simps)
  moreover have "run acts c = c" using assms(1) by (rule run_terminal)
  ultimately show ?thesis by blast
qed

text \<open>
  After \<open>controller.close()\<close> the stream stays readable until the consumer has read the
  chunks still queued. Every event that \<open>onParse\<close> is handed in that time ends in the
  \<open>catch\<close> of line 189 (\<open>JSON.parse\<close> throws, or a property read, or \<open>close\<close> and
  \<open>enqueue\<close> themselves, which refuse a stream whose close was requested), and
  \<open>controller.error\<close> then puts the stream in the error state and drops the queue.
\<close>

lemma onParse_after_close_request:
  assumes "state c = Readable" and "closeRequested c"
  shows "\<exists>e. onParse (ParsedEvent d) c
            = c\<lparr>queue := [], state := Errored, storedError := Some e, readRequests := 0\<rparr>"
proof -
  have "\<exists>e. try_block d c = Inl e"
    using assms(2)
    by (auto simp: try_block_def controller_close_def controller_enqueue_def can_close_or_enqueue_def
        split: option.splits sum.splits)
  then show ?thesis using assms(1) by (auto simp: controller_error_def)
qed

text \<open>
  Claim C5, which the code breaks. A delta \<open>"Hel"\<close> and then a finish reason arrive
  before the consumer reads: line 183 has closed the stream with success, and \<open>"Hel"\<close>
  waits to be read. A further record, one that is not valid JSON (such as the \<open>[DONE]\<close>
  line the upstream ends its stream with) or a late delta, takes the stream from there
  to the error state and drops \<open>"Hel"\<close>: the consumer's read gets the error and no byte
  of the text. The claim has the stream stay closed with success.
\<close>

theorem reframe_record_after_finish:
  "run [Upstream (delta_event ''Hel''), Upstream finish_event] new_ReadableStream
     = \<lparr>state = Readable, closeRequested = True, queue = [''Hel''], readRequests = 0,
        storedError = None, delivered = []\<rparr>
   \<and> run [Upstream (delta_event ''Hel''), Upstream finish_event, Upstream (ParsedEvent None), Read]
        new_ReadableStream
     = \<lparr>state = Errored, closeRequested = True, queue = [], readRequests = 0,
        storedError = Some SyntaxError, delivered = []\<rparr>
   \<and> run [Upstream (delta_event ''Hel''), Upstream finish_event, Upstream (delta_event ''lo''), Read]
        new_ReadableStream
     = \<lparr>state = Errored, closeRequested = True, queue = [], readRequests = 0,
        storedError = Some TypeError, delivered = []\<rparr>"
  by (simp add: delta_event_def finish_event_def try_block_def controller_enqueue_def controller_close_def
      controller_error_def can_close_or_enqueue_def stream_close_def reader_read_def new_ReadableStream_def)

section \<open>Properties of the relay\<close>

lemma invalid_key_reply_judge: "invalid_key_reply res \<longleftrightarrow> judge res = InvalidKey"
proof (cases "body_json res")
  case None
  then show ?thesis by (simp add: invalid_key_reply_def judge_def)
next
  case (Some body)
  show ?thesis
  proof (cases body)
    case (JObj kvs)
    show ?thesis
    proof (cases "map_of kvs ''error''")
      case None
      with Some JObj show ?thesis by (simp add: invalid_key_reply_def judge_def)
    next
      case (Some err)
      have "own_prop ''code'' err = Some (JStr ''invalid_api_key'') \<Longrightarrow> js_truthy (Some err)"
        by (cases err) simp_all
      with Some \<open>body_json res = Some body\<close> JObj show ?thesis
        by (auto simp: invalid_key_reply_def judge_def)
    qed
  qed (use Some in \<open>simp_all add: invalid_key_reply_def judge_def\<close>)
qed

lemma get_prop_error: "get_prop k v = Inl e \<Longrightarrow> e = TypeError"
  by (cases "(k, v)" rule: get_prop.cases) simp_all

lemma judge_Throw:
  "judge res = Throw e \<Longrightarrow> e \<noteq> OpenAIError msg ty pa (Some (JStr ''invalid_api_key''))"
  by (auto simp: judge_def split: if_splits option.splits sum.splits dest: get_prop_error)

lemma getKey_error:
  "getKey x env t s = (Inl e, s') \<Longrightarrow> e \<noteq> OpenAIError msg ty pa c"
  by (cases s)
    (auto simp: getKey_def populate_def loadKeys_def pick_key_def Let_def
      split: if_splits sum.splits prod.splits option.splits)

lemma deleteKey_error:
  "deleteKey x env k s = (Inl e, s') \<Longrightarrow> e \<noteq> OpenAIError msg ty pa c"
  by (cases s) (auto simp: deleteKey_def Let_def split: if_splits sum.splits)

lemma resolve_key_error:
  "resolve_key x env m k s = (Inl e, s') \<Longrightarrow> e \<noteq> OpenAIError msg ty pa c"
  by (cases s) (auto simp: resolve_key_def getKey_error split: if_splits)

lemma OpenAIStream_never_auth:
  "fst (OpenAIStream n x env m k s) \<noteq> Some (Inl (OpenAIError msg ty pa (Some (JStr ''invalid_api_key''))))"
proof (induction n arbitrary: k s)
  case 0
  then show ?case by simp
next
  case (Suc n)
  show ?case
    using Suc.IH
    by (auto simp: Let_def split: prod.splits sum.splits verdict.splits
        dest: resolve_key_error getKey_error deleteKey_error judge_Throw)
qed

lemma OpenAIStream_retry:
  assumes "resolve_key x env m k (p, w) = (Inr k1, p1, w1)"
    and "upstream x w1 k1 = Inr res" and "invalid_key_reply res"
  shows "OpenAIStream (Suc n) x env m k (p, w) =
     (case deleteKey x env k1 (p1, w1\<lparr>calls := calls w1 @ [k1]\<rparr>) of
        (Inl e, s3) \<Rightarrow> (Some (Inl e), s3)
      | (Inr b, s3) \<Rightarrow>
          (case getKey x env HIGHEST s3 of
             (Inl e, s4) \<Rightarrow> (Some (Inl e), s4)
           | (Inr k2, s4) \<Rightarrow> OpenAIStream n x env m k2 s4))"
proof -
  from assms(3) have j: "judge res = InvalidKey" by (simp add: invalid_key_reply_judge)
  show ?thesis
    by (simp add: assms(1,2) j Let_def split: prod.splits sum.splits)
qed

text \<open>
  Claim C2, as amended. When the upstream rejects the key as invalid, \<open>deleteKey\<close> is
  called with it. If the key server is not configured, or the request to it fails, that
  exception is the result of \<open>OpenAIStream\<close>: no new key is acquired and no second call
  is made. If the key server answers, the answer's flag is ignored, true or false: a new
  key is acquired with tier \<open>HIGHEST\<close> from the emptied pool and the call is made again.
\<close>

theorem OpenAIStream_eviction:
  assumes "resolve_key x env m k (p, w) = (Inr k1, p1, w1)"
    and "upstream x w1 k1 = Inr res" and "invalid_key_reply res"
  shows "OpenAIStream (Suc n) x env m k (p, w) =
     (if \<not> truthy_str (OPENAI_API_KEY_SERVER env) \<or> \<not> truthy_str (OPENAI_API_KEY_SERVER_AUTH env)
      then (Some (Inl KeyServerNotConfigured), p1, w1\<lparr>calls := calls w1 @ [k1]\<rparr>)
      else
        (case delete_reply x (w1\<lparr>calls := calls w1 @ [k1]\<rparr>)
                (the (OPENAI_API_KEY_SERVER env)) (the (OPENAI_API_KEY_SERVER_AUTH env)) k1 of
           Inl e \<Rightarrow> (Some (Inl (External e)), p1, w1\<lparr>calls := calls w1 @ [k1], deleted := deleted w1 @ [k1]\<rparr>)
         | Inr success \<Rightarrow>
             (case getKey x env HIGHEST
                     (p1\<lparr>gpt3keys := [], gpt4keys := [], initialized := False\<rparr>,
                      w1\<lparr>calls := calls w1 @ [k1], deleted := deleted w1 @ [k1]\<rparr>) of
                (Inl e, s4) \<Rightarrow> (Some (Inl e), s4)
              | (Inr k2, s4) \<Rightarrow> OpenAIStream n x env m k2 s4)))"
  by (simp add: OpenAIStream_retry [OF assms] deleteKey_def Let_def del: OpenAIStream.simps
      split: sum.splits)


lemma populate_cleared:
  assumes "fetch_keys x w (key_source env) = Inr recs"
  shows "populate x env (p\<lparr>gpt3keys := [], gpt4keys := [], initialized := False\<rparr>, w) =
     (None,
      \<lparr>initialized = False, gpt3keys = map fst (filter (\<lambda>r. snd r = ''gpt-3'') recs),
       gpt4keys = map fst (filter (\<lambda>r. snd r \<noteq> ''gpt-3'') recs)\<rparr>,
      w\<lparr>loads := loads w @ [key_source env]\<rparr>)"
  by (simp add: populate_uninitialized assms foldl_push_key_gpt3 foldl_push_key_gpt4
      foldl_push_key_initialized loaded_gpt3 loaded_gpt4)

lemma getKey_cleared_fst:
  assumes "random_ok x" and "fetch_keys x w (key_source env) = Inr recs"
  shows "fst (getKey x env HIGHEST (p\<lparr>gpt3keys := [], gpt4keys := [], initialized := False\<rparr>, w))
     \<in> (if truthy_str (OPENAI_API_KEY env) then {Inr (the (OPENAI_API_KEY env))}
         else if recs = [] then {Inl (NoKeysAvailable HIGHEST)} else Inr ` fst ` set recs)"
proof (cases "truthy_str (OPENAI_API_KEY env)")
  case True
  then show ?thesis by (simp add: getKey_def)
next
  case no_static: False
  let ?q = "\<lparr>initialized = False, gpt3keys = map fst (filter (\<lambda>r. snd r = ''gpt-3'') recs),
       gpt4keys = map fst (filter (\<lambda>r. snd r \<noteq> ''gpt-3'') recs)\<rparr>"
  let ?w = "w\<lparr>loads := loads w @ [key_source env]\<rparr>"
  have g: "getKey x env HIGHEST (p\<lparr>gpt3keys := [], gpt4keys := [], initialized := False\<rparr>, w)
      = pick_key x HIGHEST (?q, ?w)"
    using no_static by (simp add: getKey_def populate_cleared [OF assms(2)])
  show ?thesis
  proof (cases "recs = []")
    case True
    then show ?thesis using no_static by (simp add: g pick_key_def select_keys_def)
  next
    case False
    have ne: "select_keys HIGHEST ?q \<noteq> []"
    proof (cases "filter (\<lambda>r. snd r \<noteq> ''gpt-3'') recs = []")
      case True
      then have "filter (\<lambda>r. snd r = ''gpt-3'') recs = recs"
        by (simp add: filter_empty_conv filter_id_conv)
      with False True show ?thesis by (simp add: select_keys_def)
    next
      case False
      then show ?thesis by (simp add: select_keys_def)
    qed
    from pick_key_in [OF assms(1) ne, of ?w] obtain k2 where
      k2: "k2 \<in> set (select_keys HIGHEST ?q)" "fst (pick_key x HIGHEST (?q, ?w)) = Inr k2" by auto
    from k2(1) select_keys_subset [of HIGHEST ?q] have "k2 \<in> fst ` set recs" by auto
    with k2(2) False no_static show ?thesis by (simp add: g)
  qed
qed

text \<open>The log of upstream calls only grows, and a call made with a key logs it.\<close>

lemma getKey_calls: "getKey x env t (p, w) = (r, p', w') \<Longrightarrow> calls w' = calls w"
  by (auto simp: getKey_def populate_def loadKeys_def pick_key_def Let_def
      split: if_splits sum.splits prod.splits option.splits)

lemma deleteKey_calls: "deleteKey x env k (p, w) = (r, p', w') \<Longrightarrow> calls w' = calls w"
  by (auto simp: deleteKey_def Let_def split: if_splits sum.splits)

lemma resolve_key_calls: "resolve_key x env m k (p, w) = (r, p', w') \<Longrightarrow> calls w' = calls w"
  by (auto simp: resolve_key_def getKey_calls split: if_splits)

lemma OpenAIStream_calls_prefix:
  "\<exists>rest. calls (snd (snd (OpenAIStream n x env m k (p, w)))) = calls w @ rest"
proof (induction n arbitrary: k p w)
  case 0
  then show ?case by simp
next
  case (Suc n)
  obtain r p1 w1 where rk: "resolve_key x env m k (p, w) = (r, p1, w1)"
    by (cases "resolve_key x env m k (p, w)") auto
  from resolve_key_calls [OF rk] have c1: "calls w1 = calls w" .
  show ?case
  proof (cases r)
    case (Inl e)
    with rk c1 show ?thesis by simp
  next
    case (Inr k1)
    let ?w2 = "w1\<lparr>calls := calls w1 @ [k1]\<rparr>"
    show ?thesis
    proof (cases "upstream x w1 k1")
      case (Inl e)
      with rk Inr c1 show ?thesis by simp
    next
      case res: (Inr res)
      show ?thesis
      proof (cases "judge res")
        case (Ok evs)
        with rk Inr res c1 show ?thesis by simp
      next
        case (Throw e)
        with rk Inr res c1 show ?thesis by simp
      next
        case InvalidKey
        obtain d p3 w3 where dk: "deleteKey x env k1 (p1, ?w2) = (d, p3, w3)"
          by (cases "deleteKey x env k1 (p1, ?w2)") auto
        from deleteKey_calls [OF dk] c1 have c3: "calls w3 = calls w @ [k1]" by simp
        show ?thesis
        proof (cases d)
          case (Inl e)
          with rk Inr res InvalidKey dk c3 show ?thesis by simp
        next
          case b: (Inr b)
          obtain g p4 w4 where gk: "getKey x env HIGHEST (p3, w3) = (g, p4, w4)"
            by (cases "getKey x env HIGHEST (p3, w3)") auto
          from getKey_calls [OF gk] c3 have c4: "calls w4 = calls w @ [k1]" by simp
          show ?thesis
          proof (cases g)
            case (Inl e)
            with rk Inr res InvalidKey dk b gk c4 show ?thesis by simp
          next
            case k2: (Inr k2)
            from Suc.IH [of k2 p4 w4] obtain rest where
              "calls (snd (snd (OpenAIStream n x env m k2 (p4, w4)))) = calls w4 @ rest" by blast
            with rk Inr res InvalidKey dk b gk k2 c4 show ?thesis by simp
          qed
        qed
      qed
    qed
  qed
qed

lemma OpenAIStream_first_call:
  assumes "k \<noteq> []"
  shows "\<exists>rest. calls (snd (snd (OpenAIStream (Suc n) x env m k (p, w)))) = calls w @ k # rest"
proof -
  have rk: "resolve_key x env m k (p, w) = (Inr k, p, w)" using assms by (simp add: resolve_key_def)
  let ?w2 = "w\<lparr>calls := calls w @ [k]\<rparr>"
  show ?thesis
  proof (cases "upstream x w k")
    case (Inl e)
    with rk show ?thesis by simp
  next
    case res: (Inr res)
    show ?thesis
    proof (cases "judge res")
      case (Ok evs)
      with rk res show ?thesis by simp
    next
      case (Throw e)
      with rk res show ?thesis by simp
    next
      case InvalidKey
      obtain d p3 w3 where dk: "deleteKey x env k (p, ?w2) = (d, p3, w3)"
        by (cases "deleteKey x env k (p, ?w2)") auto
      from deleteKey_calls [OF dk] have c3: "calls w3 = calls w @ [k]" by simp
      show ?thesis
      proof (cases d)
        case (Inl e)
        with rk res InvalidKey dk c3 show ?thesis by simp
      next
        case b: (Inr b)
        obtain g p4 w4 where gk: "getKey x env HIGHEST (p3, w3) = (g, p4, w4)"
          by (cases "getKey x env HIGHEST (p3, w3)") auto
        from getKey_calls [OF gk] c3 have c4: "calls w4 = calls w @ [k]" by simp
        show ?thesis
        proof (cases g)
          case (Inl e)
          with rk res InvalidKey dk b gk c4 show ?thesis by simp
        next
          case k2: (Inr k2)
          from OpenAIStream_calls_prefix [of n x env m k2 p4 w4] obtain rest where
            "calls (snd (snd (OpenAIStream n x env m k2 (p4, w4)))) = calls w4 @ rest" by blast
          with rk res InvalidKey dk b gk k2 c4 show ?thesis by simp
        qed
      qed
    qed
  qed
qed

lemma retry_calls:
  assumes "OpenAIStream (Suc n) x env m k (p, w) = OpenAIStream n x env m k2 (p4, w4)"
    and "calls w4 = cs @ [k1]" and "0 < n" and "k2 \<noteq> []"
  shows "take (Suc (Suc (length cs))) (calls (snd (snd (OpenAIStream (Suc n) x env m k (p, w))))) = cs @ [k1, k2]"
proof -
  from assms(3) obtain n' where n: "n = Suc n'" by (cases n) auto
  from OpenAIStream_first_call [OF assms(4), of n' x env m p4 w4] obtain rest where
    "calls (snd (snd (OpenAIStream n x env m k2 (p4, w4)))) = calls w4 @ k2 # rest"
    unfolding n by blast
  then show ?thesis by (simp add: assms(1,2) del: OpenAIStream.simps)
qed

lemma OpenAIStream_retry_cases:
  assumes "resolve_key x env m k (p, w) = (Inr k1, p1, w1)"
    and "upstream x w1 k1 = Inr res" and "invalid_key_reply res"
  shows "OpenAIStream (Suc n) x env m k (p, w) =
     (if \<not> truthy_str (OPENAI_API_KEY_SERVER env) \<or> \<not> truthy_str (OPENAI_API_KEY_SERVER_AUTH env)
      then (Some (Inl KeyServerNotConfigured), p1, w1\<lparr>calls := calls w1 @ [k1]\<rparr>)
      else
        (case delete_reply x (w1\<lparr>calls := calls w1 @ [k1]\<rparr>)
                (the (OPENAI_API_KEY_SERVER env)) (the (OPENAI_API_KEY_SERVER_AUTH env)) k1 of
           Inl e \<Rightarrow> (Some (Inl (External e)), p1, w1\<lparr>calls := calls w1 @ [k1], deleted := deleted w1 @ [k1]\<rparr>)
         | Inr success \<Rightarrow>
             (case getKey x env HIGHEST
                     (p1\<lparr>gpt3keys := [], gpt4keys := [], initialized := False\<rparr>,
                      w1\<lparr>calls := calls w1 @ [k1], deleted := deleted w1 @ [k1]\<rparr>) of
                (Inl e, s4) \<Rightarrow> (Some (Inl e), s4)
              | (Inr k2, s4) \<Rightarrow> OpenAIStream n x env m k2 s4)))"
  by (simp add: OpenAIStream_retry [OF assms] deleteKey_def Let_def del: OpenAIStream.simps
      split: sum.splits)

lemma OpenAIStream_invalid_key_cases:
  assumes ro: "random_ok x" and rk: "resolve_key x env m k (p, w) = (Inr k1, p1, w1)"
    and up: "upstream x w1 k1 = Inr res" and inv: "invalid_key_reply res"
  shows "(let r = OpenAIStream (Suc n) x env m k (p, w);
            w2 = w1\<lparr>calls := calls w1 @ [k1]\<rparr>;
            w3 = w1\<lparr>calls := calls w1 @ [k1], deleted := deleted w1 @ [k1]\<rparr>;
            w4 = w1\<lparr>calls := calls w1 @ [k1], deleted := deleted w1 @ [k1],
                    loads := loads w1 @ [key_source env]\<rparr>;
            p3 = p1\<lparr>gpt3keys := [], gpt4keys := [], initialized := False\<rparr>
        in if \<not> truthy_str (OPENAI_API_KEY_SERVER env) \<or> \<not> truthy_str (OPENAI_API_KEY_SERVER_AUTH env)
           then r = (Some (Inl KeyServerNotConfigured), p1, w2)
           else
             (case delete_reply x w2 (the (OPENAI_API_KEY_SERVER env)) (the (OPENAI_API_KEY_SERVER_AUTH env)) k1 of
                Inl e \<Rightarrow> r = (Some (Inl (External e)), p1, w3)
              | Inr success \<Rightarrow>
                  (if truthy_str (OPENAI_API_KEY env)
                   then r = OpenAIStream n x env m (the (OPENAI_API_KEY env)) (p3, w3)
                        \<and> (0 < n \<longrightarrow> take (Suc (Suc (length (calls w1)))) (calls (snd (snd r)))
                               = calls w1 @ [k1, the (OPENAI_API_KEY env)])
                   else
                     (case fetch_keys x w3 (key_source env) of
                        Inl e \<Rightarrow> r = (Some (Inl (External e)), p3, w4)
                      | Inr recs \<Rightarrow>
                          (if recs = [] then r = (Some (Inl (NoKeysAvailable HIGHEST)), p3, w4)
                           else \<exists>k2 \<in> fst ` set recs. \<exists>s4.
                                  getKey x env HIGHEST (p3, w3) = (Inr k2, s4)
                                  \<and> r = OpenAIStream n x env m k2 s4
                                  \<and> (0 < n \<and> k2 \<noteq> [] \<longrightarrow>
                                       take (Suc (Suc (length (calls w1)))) (calls (snd (snd r)))
                                         = calls w1 @ [k1, k2]))))))"
proof -
  let ?r = "OpenAIStream (Suc n) x env m k (p, w)"
  let ?w2 = "w1\<lparr>calls := calls w1 @ [k1]\<rparr>"
  let ?w3 = "w1\<lparr>calls := calls w1 @ [k1], deleted := deleted w1 @ [k1]\<rparr>"
  let ?w4 = "w1\<lparr>calls := calls w1 @ [k1], deleted := deleted w1 @ [k1],
                    loads := loads w1 @ [key_source env]\<rparr>"
  let ?p3 = "p1\<lparr>gpt3keys := [], gpt4keys := [], initialized := False\<rparr>"
  note E = OpenAIStream_retry_cases [OF rk up inv, of n]
  have c3: "calls ?w3 = calls w1 @ [k1]" by simp
  have ni: "\<not> initialized ?p3" by simp
  show ?thesis
  proof (cases "\<not> truthy_str (OPENAI_API_KEY_SERVER env) \<or> \<not> truthy_str (OPENAI_API_KEY_SERVER_AUTH env)")
    case True
    then show ?thesis using E by (simp add: Let_def del: OpenAIStream.simps)
  next
    case cfg: False
    show ?thesis
    proof (cases "delete_reply x ?w2 (the (OPENAI_API_KEY_SERVER env)) (the (OPENAI_API_KEY_SERVER_AUTH env)) k1")
      case (Inl e)
      with cfg E show ?thesis by (simp add: Let_def del: OpenAIStream.simps)
    next
      case dr: (Inr success)
      from cfg dr E have R: "?r = (case getKey x env HIGHEST (?p3, ?w3) of
                (Inl e, s4) \<Rightarrow> (Some (Inl e), s4)
              | (Inr k2, s4) \<Rightarrow> OpenAIStream n x env m k2 s4)"
        by (simp del: OpenAIStream.simps)
      show ?thesis
      proof (cases "truthy_str (OPENAI_API_KEY env)")
        case True
        then have g: "getKey x env HIGHEST (?p3, ?w3) = (Inr (the (OPENAI_API_KEY env)), ?p3, ?w3)"
          by (simp add: getKey_def)
        from True have ne: "the (OPENAI_API_KEY env) \<noteq> []" by (cases "OPENAI_API_KEY env") auto
        have r: "?r = OpenAIStream n x env m (the (OPENAI_API_KEY env)) (?p3, ?w3)"
          by (simp only: R g) simp
        have "take (Suc (Suc (length (calls w1)))) (calls (snd (snd ?r)))
               = calls w1 @ [k1, the (OPENAI_API_KEY env)]" if "0 < n"
          by (rule retry_calls [OF r c3 that ne])
        with r cfg dr True show ?thesis by (simp add: Let_def del: OpenAIStream.simps)
      next
        case no_static: False
        show ?thesis
        proof (cases "fetch_keys x ?w3 (key_source env)")
          case (Inl e)
          then have "getKey x env HIGHEST (?p3, ?w3) = (Inl (External e), ?p3, ?w4)"
            using no_static by (simp add: getKey_def populate_uninitialized [OF ni])
          with R have "?r = (Some (Inl (External e)), ?p3, ?w4)" by (simp del: OpenAIStream.simps)
          with cfg dr no_static Inl show ?thesis by (simp add: Let_def del: OpenAIStream.simps)
        next
          case fk: (Inr recs)
          show ?thesis
          proof (cases "recs = []")
            case True
            with fk have "getKey x env HIGHEST (?p3, ?w3) = (Inl (NoKeysAvailable HIGHEST), ?p3, ?w4)"
              using no_static
              by (simp add: getKey_def populate_uninitialized [OF ni] pick_key_def select_keys_def)
            with R have "?r = (Some (Inl (NoKeysAvailable HIGHEST)), ?p3, ?w4)"
              by (simp del: OpenAIStream.simps)
            with cfg dr no_static fk True show ?thesis by (simp add: Let_def del: OpenAIStream.simps)
          next
            case False
            from getKey_cleared_fst [OF ro fk, of p1] no_static False
            obtain k2 where k2: "k2 \<in> fst ` set recs" "fst (getKey x env HIGHEST (?p3, ?w3)) = Inr k2"
              by auto
            then obtain p4 w4 where g: "getKey x env HIGHEST (?p3, ?w3) = (Inr k2, p4, w4)"
              by (cases "getKey x env HIGHEST (?p3, ?w3)") auto
            from getKey_calls [OF g] have c4: "calls w4 = calls w1 @ [k1]" by simp
            have r: "?r = OpenAIStream n x env m k2 (p4, w4)" by (simp only: R g) simp
            have "take (Suc (Suc (length (calls w1)))) (calls (snd (snd ?r))) = calls w1 @ [k1, k2]"
              if "0 < n" "k2 \<noteq> []"
              by (rule retry_calls [OF r c4 that])
            with r g k2(1) have "\<exists>k2 \<in> fst ` set recs. \<exists>s4.
                                  getKey x env HIGHEST (?p3, ?w3) = (Inr k2, s4)
                                  \<and> ?r = OpenAIStream n x env m k2 s4
                                  \<and> (0 < n \<and> k2 \<noteq> [] \<longrightarrow>
                                       take (Suc (Suc (length (calls w1)))) (calls (snd (snd ?r)))
                                         = calls w1 @ [k1, k2])"
              by blast
            with cfg dr no_static fk False show ?thesis by (simp add: Let_def del: OpenAIStream.simps)
          qed
        qed
      qed
    qed
  qed
qed

text \<open>
  Claim C3, as amended. Under every configuration, and however many retries, the
  \<open>OpenAIError\<close> with code \<open>"invalid_api_key"\<close> is never the result of \<open>OpenAIStream\<close>.
  When the upstream answers the call made with \<open>k1\<close> with a status other than 200 and
  that code, \<open>deleteKey k1\<close> is called, and the result \<open>r\<close> is:
  \<^item> the "key server not configured" error, when no key server is configured;
  \<^item> the exception of the delete request, when that request fails;
  \<^item> else, with a static key configured, the result of the call made again with the
    static key;
  \<^item> else the exception of the reload, when loading the source again fails;
  \<^item> else the "no keys" error, when the source loaded again lists no key;
  \<^item> else the result of the call made again with a key \<open>k2\<close> of the source loaded
    again, acquired with tier \<open>HIGHEST\<close>.
  Where the call is made again (and the new key is not the empty string, which line 118
  takes for no key), the log of upstream calls shows \<open>k1\<close> and then the new key.
\<close>

theorem OpenAIStream_invalid_key:
  "(\<forall>j msg ty pa. fst (OpenAIStream j x env m k (p, w))
        \<noteq> Some (Inl (OpenAIError msg ty pa (Some (JStr ''invalid_api_key'')))))
   \<and> (random_ok x \<and> resolve_key x env m k (p, w) = (Inr k1, p1, w1)
        \<and> upstream x w1 k1 = Inr res \<and> invalid_key_reply res \<longrightarrow>
       (let r = OpenAIStream (Suc n) x env m k (p, w);
            w2 = w1\<lparr>calls := calls w1 @ [k1]\<rparr>;
            w3 = w1\<lparr>calls := calls w1 @ [k1], deleted := deleted w1 @ [k1]\<rparr>;
            w4 = w1\<lparr>calls := calls w1 @ [k1], deleted := deleted w1 @ [k1],
                    loads := loads w1 @ [key_source env]\<rparr>;
            p3 = p1\<lparr>gpt3keys := [], gpt4keys := [], initialized := False\<rparr>
        in if \<not> truthy_str (OPENAI_API_KEY_SERVER env) \<or> \<not> truthy_str (OPENAI_API_KEY_SERVER_AUTH env)
           then r = (Some (Inl KeyServerNotConfigured), p1, w2)
           else
             (case delete_reply x w2 (the (OPENAI_API_KEY_SERVER env)) (the (OPENAI_API_KEY_SERVER_AUTH env)) k1 of
                Inl e \<Rightarrow> r = (Some (Inl (External e)), p1, w3)
              | Inr success \<Rightarrow>
                  (if truthy_str (OPENAI_API_KEY env)
                   then r = OpenAIStream n x env m (the (OPENAI_API_KEY env)) (p3, w3)
                        \<and> (0 < n \<longrightarrow> take (Suc (Suc (length (calls w1)))) (calls (snd (snd r)))
                               = calls w1 @ [k1, the (OPENAI_API_KEY env)])
                   else
                     (case fetch_keys x w3 (key_source env) of
                        Inl e \<Rightarrow> r = (Some (Inl (External e)), p3, w4)
                      | Inr recs \<Rightarrow>
                          (if recs = [] then r = (Some (Inl (NoKeysAvailable HIGHEST)), p3, w4)
                           else \<exists>k2 \<in> fst ` set recs. \<exists>s4.
                                  getKey x env HIGHEST (p3, w3) = (Inr k2, s4)
                                  \<and> r = OpenAIStream n x env m k2 s4
                                  \<and> (0 < n \<and> k2 \<noteq> [] \<longrightarrow>
                                       take (Suc (Suc (length (calls w1)))) (calls (snd (snd r)))
                                         = calls w1 @ [k1, k2])))))))"
  using OpenAIStream_never_auth [of _ x env m k "(p, w)"]
    OpenAIStream_invalid_key_cases [of x env m k p w k1 p1 w1 res n]
  by blast

lemma getKey_cleared_premium:
  assumes "\<not> truthy_str (OPENAI_API_KEY env)" and "random_ok x"
    and "fetch_keys x w (key_source env) = Inr recs"
    and "filter (\<lambda>r. snd r \<noteq> ''gpt-3'') recs \<noteq> []"
  shows "\<exists>k2 \<in> set (map fst (filter (\<lambda>r. snd r \<noteq> ''gpt-3'') recs)). \<exists>s4.
           getKey x env HIGHEST (p\<lparr>gpt3keys := [], gpt4keys := [], initialized := False\<rparr>, w) = (Inr k2, s4)"
proof -
  let ?q = "\<lparr>initialized = False, gpt3keys = map fst (filter (\<lambda>r. snd r = ''gpt-3'') recs),
       gpt4keys = map fst (filter (\<lambda>r. snd r \<noteq> ''gpt-3'') recs)\<rparr>"
  let ?w = "w\<lparr>loads := loads w @ [key_source env]\<rparr>"
  have g: "getKey x env HIGHEST (p\<lparr>gpt3keys := [], gpt4keys := [], initialized := False\<rparr>, w)
      = pick_key x HIGHEST (?q, ?w)"
    using assms(1) by (simp add: getKey_def populate_cleared [OF assms(3)])
  have s: "select_keys HIGHEST ?q = map fst (filter (\<lambda>r. snd r \<noteq> ''gpt-3'') recs)"
    using assms(4) by (simp add: select_keys_def)
  then have "select_keys HIGHEST ?q \<noteq> []" using assms(4) by simp
  from pick_key_in [OF assms(2) this, of ?w] show ?thesis by (auto simp: g s)
qed

text \<open>
  Claim C10. For a model other than \<open>gpt-4\<close> (tier \<open>GPT3\<close>) whose first key \<open>k1\<close> came
  from the GPT-3 array and was rejected as invalid: the new key \<open>k2\<close> is acquired with
  tier \<open>HIGHEST\<close>, so whenever the source loaded again lists a record that is not
  \<open>"gpt-3"\<close>, \<open>k2\<close> is a key of the GPT-4 array, and the log of upstream calls shows the
  call with \<open>k1\<close> and then the call with \<open>k2\<close> (unless \<open>k2\<close> is the empty string, which
  line 118 takes for no key).
\<close>

theorem OpenAIStream_retry_tier:
  assumes "m \<noteq> ''gpt-4''"
    and "\<not> truthy_str (OPENAI_API_KEY env)"
    and "truthy_str (OPENAI_API_KEY_SERVER env)" and "truthy_str (OPENAI_API_KEY_SERVER_AUTH env)"
    and "random_ok x"
    and "getKey x env GPT3 (p, w) = (Inr k1, p1, w1)" and "gpt3keys p1 \<noteq> []"
    and "upstream x w1 k1 = Inr res" and "invalid_key_reply res"
    and "delete_reply x (w1\<lparr>calls := calls w1 @ [k1]\<rparr>)
           (the (OPENAI_API_KEY_SERVER env)) (the (OPENAI_API_KEY_SERVER_AUTH env)) k1 = Inr success"
    and "fetch_keys x (w1\<lparr>calls := calls w1 @ [k1], deleted := deleted w1 @ [k1]\<rparr>) (key_source env) = Inr recs"
    and "filter (\<lambda>r. snd r \<noteq> ''gpt-3'') recs \<noteq> []"
  shows "keyType_of m = GPT3 \<and> k1 \<in> set (gpt3keys p1)
       \<and> (\<exists>k2 \<in> set (map fst (filter (\<lambda>r. snd r \<noteq> ''gpt-3'') recs)). \<exists>s4.
            getKey x env HIGHEST
              (p1\<lparr>gpt3keys := [], gpt4keys := [], initialized := False\<rparr>,
               w1\<lparr>calls := calls w1 @ [k1], deleted := deleted w1 @ [k1]\<rparr>) = (Inr k2, s4)
            \<and> OpenAIStream (Suc (Suc n)) x env m [] (p, w) = OpenAIStream (Suc n) x env m k2 s4
            \<and> (k2 \<noteq> [] \<longrightarrow>
                 take (Suc (Suc (length (calls w))))
                   (calls (snd (snd (OpenAIStream (Suc (Suc n)) x env m [] (p, w)))))
                 = calls w @ [k1, k2]))"
proof -
  let ?p3 = "p1\<lparr>gpt3keys := [], gpt4keys := [], initialized := False\<rparr>"
  let ?w3 = "w1\<lparr>calls := calls w1 @ [k1], deleted := deleted w1 @ [k1]\<rparr>"
  let ?r = "OpenAIStream (Suc (Suc n)) x env m [] (p, w)"
  have t: "keyType_of m = GPT3" using assms(1) by (simp add: keyType_of_def)
  then have rk: "resolve_key x env m [] (p, w) = (Inr k1, p1, w1)"
    by (simp add: resolve_key_def assms(6))
  from getKey_calls [OF assms(6)] have cw: "calls w1 = calls w" .
  have k1: "k1 \<in> set (gpt3keys p1)"
  proof -
    obtain q wq where pop: "populate x env (p, w) = (None, q, wq)"
      and pk: "pick_key x GPT3 (q, wq) = (Inr k1, p1, w1)"
      using assms(2,6) by (auto simp: getKey_def split: prod.splits option.splits)
    from pk have q: "gpt3keys p1 = gpt3keys q"
      by (auto simp: pick_key_def Let_def split: if_splits)
    with assms(7) have s: "select_keys GPT3 q = gpt3keys q" by (simp add: select_keys_def)
    then have "select_keys GPT3 q \<noteq> []" using assms(7) q by simp
    from pick_key_in [OF assms(5) this, of wq] pk s q show ?thesis by auto
  qed
  from getKey_cleared_premium [OF assms(2,5,11,12), of p1] obtain k2 p4 w4 where
    k2: "k2 \<in> set (map fst (filter (\<lambda>r. snd r \<noteq> ''gpt-3'') recs))"
    and g: "getKey x env HIGHEST (?p3, ?w3) = (Inr k2, p4, w4)" by (metis surj_pair)
  from getKey_calls [OF g] cw have c4: "calls w4 = calls w @ [k1]" by simp
  have r: "?r = OpenAIStream (Suc n) x env m k2 (p4, w4)"
    by (simp add: OpenAIStream_retry_cases [OF rk assms(8,9)] assms(3,4,10) g
        del: OpenAIStream.simps)
  have "take (Suc (Suc (length (calls w)))) (calls (snd (snd ?r))) = calls w @ [k1, k2]" if "k2 \<noteq> []"
    by (rule retry_calls [OF r c4 _ that]) simp
  with t k1 k2 g r show ?thesis by blast
qed

lemmas sample_defs = env_server_def env_file_def env_override_def sim_ext_def world_init_def
  KeyStore_init_def invalid_key_response_def ok_response_def

lemmas pool_defs = getKey_def populate_def loadKeys_def key_source_def to_Key_def push_key_def
  pick_key_def select_keys_def random_index_def deleteKey_def

lemmas relay_defs = resolve_key_def keyType_of_def judge_def

lemma invalid_key_response_reply: "invalid_key_reply invalid_key_response"
  by (simp add: invalid_key_reply_def invalid_key_response_def)

theorem OpenAIStream_eviction_witness:
  "resolve_key (sim_ext [(''sk-4'', ''gpt-4'')] [''sk-user'']) env_server ''gpt-3.5-turbo'' ''sk-user''
       (KeyStore_init, world_init) = (Inr ''sk-user'', KeyStore_init, world_init)
   \<and> upstream (sim_ext [(''sk-4'', ''gpt-4'')] [''sk-user'']) world_init ''sk-user'' = Inr invalid_key_response
   \<and> invalid_key_reply invalid_key_response
   \<and> delete_reply (sim_ext [(''sk-4'', ''gpt-4'')] [''sk-user'']) (world_init\<lparr>calls := [''sk-user'']\<rparr>)
        ''keys.local'' ''secret'' ''sk-user'' = Inr False
   \<and> OpenAIStream (Suc (Suc 0)) (sim_ext [(''sk-4'', ''gpt-4'')] [''sk-user'']) env_server ''gpt-3.5-turbo'' ''sk-user''
       (KeyStore_init, world_init)
     = (Some (Inr hello_events), \<lparr>initialized = True, gpt3keys = [], gpt4keys = [''sk-4'']\<rparr>,
        \<lparr>loads = [KeyServer ''keys.local'' ''secret''], deleted = [''sk-user''],
         calls = [''sk-user'', ''sk-4''], draws = 1\<rparr>)"
proof -
  let ?x = "sim_ext [(''sk-4'', ''gpt-4'')] [''sk-user'']"
  have h1: "resolve_key ?x env_server ''gpt-3.5-turbo'' ''sk-user'' (KeyStore_init, world_init)
      = (Inr ''sk-user'', KeyStore_init, world_init)"
    by (simp add: resolve_key_def)
  have h2: "upstream ?x world_init ''sk-user'' = Inr invalid_key_response"
    by (simp add: sim_ext_def)
  have d: "delete_reply ?x (world_init\<lparr>calls := [''sk-user'']\<rparr>) ''keys.local'' ''secret'' ''sk-user'' = Inr False"
    by (simp add: sim_ext_def)
  from OpenAIStream_eviction [OF h1 h2 invalid_key_response_reply, of "Suc 0"]
  have "OpenAIStream (Suc (Suc 0)) ?x env_server ''gpt-3.5-turbo'' ''sk-user'' (KeyStore_init, world_init)
     = (Some (Inr hello_events), \<lparr>initialized = True, gpt3keys = [], gpt4keys = [''sk-4'']\<rparr>,
        \<lparr>loads = [KeyServer ''keys.local'' ''secret''], deleted = [''sk-user''],
         calls = [''sk-user'', ''sk-4''], draws = 1\<rparr>)"
    by (simp add: sample_defs pool_defs relay_defs)
  with h1 h2 d invalid_key_response_reply show ?thesis by blast
qed

text \<open>
  Claim C2 as stated fails: with a local key file and no key server, the exception of
  \<open>deleteKey\<close> reaches the caller after one upstream call, although the file lists a key.
\<close>

theorem OpenAIStream_eviction_counterexample:
  "OpenAIStream (Suc (Suc (Suc 0))) (sim_ext [(''sk-a'', ''gpt-3'')] [''sk-user'']) env_file ''gpt-3.5-turbo'' ''sk-user''
       (KeyStore_init, world_init)
     = (Some (Inl KeyServerNotConfigured), KeyStore_init, world_init\<lparr>calls := [''sk-user'']\<rparr>)"
  by (simp add: sample_defs pool_defs relay_defs)

theorem OpenAIStream_invalid_key_witness:
  "random_ok (sim_ext [(''sk-a'', ''gpt-4''), (''sk-b'', ''gpt-4'')] [''sk-a''])
   \<and> resolve_key (sim_ext [(''sk-a'', ''gpt-4''), (''sk-b'', ''gpt-4'')] [''sk-a'']) env_server ''gpt-4'' []
       (KeyStore_init, world_init)
       = (Inr ''sk-a'', \<lparr>initialized = True, gpt3keys = [], gpt4keys = [''sk-a'', ''sk-b'']\<rparr>,
          \<lparr>loads = [KeyServer ''keys.local'' ''secret''], deleted = [], calls = [], draws = 1\<rparr>)
   \<and> upstream (sim_ext [(''sk-a'', ''gpt-4''), (''sk-b'', ''gpt-4'')] [''sk-a''])
        \<lparr>loads = [KeyServer ''keys.local'' ''secret''], deleted = [], calls = [], draws = 1\<rparr> ''sk-a''
       = Inr invalid_key_response
   \<and> invalid_key_reply invalid_key_response
   \<and> take 2 (calls (snd (snd (OpenAIStream (Suc (Suc 0))
        (sim_ext [(''sk-a'', ''gpt-4''), (''sk-b'', ''gpt-4'')] [''sk-a'']) env_server ''gpt-4'' []
        (KeyStore_init, world_init))))) = [''sk-a'', ''sk-b'']
   \<and> OpenAIStream (Suc (Suc 0)) (sim_ext [(''sk-a'', ''gpt-4''), (''sk-b'', ''gpt-4'')] [''sk-a'']) env_server ''gpt-4'' []
       (KeyStore_init, world_init)
       = (Some (Inr hello_events), \<lparr>initialized = True, gpt3keys = [], gpt4keys = [''sk-b'']\<rparr>,
          \<lparr>loads = [KeyServer ''keys.local'' ''secret'', KeyServer ''keys.local'' ''secret''],
           deleted = [''sk-a''], calls = [''sk-a'', ''sk-b''], draws = 2\<rparr>)"
proof -
  let ?x = "sim_ext [(''sk-a'', ''gpt-4''), (''sk-b'', ''gpt-4'')] [''sk-a'']"
  let ?w1 = "\<lparr>loads = [KeyServer ''keys.local'' ''secret''], deleted = [], calls = [], draws = 1\<rparr>"
  let ?p1 = "\<lparr>initialized = True, gpt3keys = [], gpt4keys = [''sk-a'', ''sk-b'']\<rparr>"
  have h1: "random_ok ?x" by (simp add: random_ok_def sim_ext_def)
  have h2: "resolve_key ?x env_server ''gpt-4'' [] (KeyStore_init, world_init) = (Inr ''sk-a'', ?p1, ?w1)"
    by (simp add: sample_defs pool_defs relay_defs)
  have h3: "upstream ?x ?w1 ''sk-a'' = Inr invalid_key_response" by (simp add: sim_ext_def)
  have d: "delete_reply ?x (?w1\<lparr>calls := calls ?w1 @ [''sk-a'']\<rparr>) ''keys.local'' ''secret'' ''sk-a'' = Inr True"
    by (simp add: sim_ext_def)
  have f: "fetch_keys ?x (?w1\<lparr>calls := calls ?w1 @ [''sk-a''], deleted := deleted ?w1 @ [''sk-a'']\<rparr>)
      (key_source env_server) = Inr [(''sk-b'', ''gpt-4'')]"
    by (simp add: sim_ext_def)
  from OpenAIStream_invalid_key [where x = ?x and env = env_server and m = "''gpt-4''" and k = "[]"
      and p = KeyStore_init and w = world_init and ?k1.0 = "''sk-a''" and ?p1.0 = ?p1 and ?w1.0 = ?w1
      and res = invalid_key_response and n = "Suc 0"]
    h1 h2 h3 invalid_key_response_reply
  have "take 2 (calls (snd (snd (OpenAIStream (Suc (Suc 0)) ?x env_server ''gpt-4'' []
        (KeyStore_init, world_init))))) = [''sk-a'', ''sk-b'']"
    using d f by (auto simp: Let_def env_server_def numeral_2_eq_2 simp del: OpenAIStream.simps)
  moreover have "OpenAIStream (Suc (Suc 0)) ?x env_server ''gpt-4'' [] (KeyStore_init, world_init)
       = (Some (Inr hello_events), \<lparr>initialized = True, gpt3keys = [], gpt4keys = [''sk-b'']\<rparr>,
          \<lparr>loads = [KeyServer ''keys.local'' ''secret'', KeyServer ''keys.local'' ''secret''],
           deleted = [''sk-a''], calls = [''sk-a'', ''sk-b''], draws = 2\<rparr>)"
    by (simp add: sample_defs pool_defs relay_defs)
  ultimately show ?thesis using h1 h2 h3 invalid_key_response_reply by blast
qed

text \<open>
  Claim C3 as stated fails without a key server: the pool holds a second key, which the
  upstream would accept, but the caller gets the "key server not configured" error,
  which is not the "no keys" error.
\<close>

theorem OpenAIStream_invalid_key_counterexample:
  "OpenAIStream (Suc (Suc 0)) (sim_ext [(''sk-a'', ''gpt-3''), (''sk-b'', ''gpt-3'')] [''sk-a'']) env_file ''gpt-3.5-turbo'' []
       (KeyStore_init, world_init)
     = (Some (Inl KeyServerNotConfigured), \<lparr>initialized = True, gpt3keys = [''sk-a'', ''sk-b''], gpt4keys = []\<rparr>,
        \<lparr>loads = [LocalFile ''keys.json''], deleted = [], calls = [''sk-a''], draws = 1\<rparr>)
   \<and> upstream (sim_ext [(''sk-a'', ''gpt-3''), (''sk-b'', ''gpt-3'')] [''sk-a''])
        \<lparr>loads = [LocalFile ''keys.json''], deleted = [], calls = [''sk-a''], draws = 1\<rparr> ''sk-b''
     = Inr ok_response"
  by (simp add: sample_defs pool_defs relay_defs)

theorem OpenAIStream_retry_tier_witness:
  "''gpt-3.5-turbo'' \<noteq> ''gpt-4''
   \<and> getKey (sim_ext [(''sk-3'', ''gpt-3''), (''sk-4'', ''gpt-4'')] [''sk-3'']) env_server GPT3 (KeyStore_init, world_init)
       = (Inr ''sk-3'', \<lparr>initialized = True, gpt3keys = [''sk-3''], gpt4keys = [''sk-4'']\<rparr>,
          \<lparr>loads = [KeyServer ''keys.local'' ''secret''], deleted = [], calls = [], draws = 1\<rparr>)
   \<and> upstream (sim_ext [(''sk-3'', ''gpt-3''), (''sk-4'', ''gpt-4'')] [''sk-3''])
        \<lparr>loads = [KeyServer ''keys.local'' ''secret''], deleted = [], calls = [], draws = 1\<rparr> ''sk-3''
       = Inr invalid_key_response
   \<and> fetch_keys (sim_ext [(''sk-3'', ''gpt-3''), (''sk-4'', ''gpt-4'')] [''sk-3''])
        \<lparr>loads = [KeyServer ''keys.local'' ''secret''], deleted = [''sk-3''], calls = [''sk-3''], draws = 1\<rparr>
        (key_source env_server) = Inr [(''sk-4'', ''gpt-4'')]
   \<and> take 2 (calls (snd (snd (OpenAIStream (Suc (Suc 0))
        (sim_ext [(''sk-3'', ''gpt-3''), (''sk-4'', ''gpt-4'')] [''sk-3'']) env_server ''gpt-3.5-turbo'' []
        (KeyStore_init, world_init))))) = [''sk-3'', ''sk-4'']
   \<and> OpenAIStream (Suc (Suc 0)) (sim_ext [(''sk-3'', ''gpt-3''), (''sk-4'', ''gpt-4'')] [''sk-3'']) env_server
        ''gpt-3.5-turbo'' [] (KeyStore_init, world_init)
       = (Some (Inr hello_events), \<lparr>initialized = True, gpt3keys = [], gpt4keys = [''sk-4'']\<rparr>,
          \<lparr>loads = [KeyServer ''keys.local'' ''secret'', KeyServer ''keys.local'' ''secret''],
           deleted = [''sk-3''], calls = [''sk-3'', ''sk-4''], draws = 2\<rparr>)"
proof -
  let ?x = "sim_ext [(''sk-3'', ''gpt-3''), (''sk-4'', ''gpt-4'')] [''sk-3'']"
  let ?w1 = "\<lparr>loads = [KeyServer ''keys.local'' ''secret''], deleted = [], calls = [], draws = 1\<rparr>"
  let ?p1 = "\<lparr>initialized = True, gpt3keys = [''sk-3''], gpt4keys = [''sk-4'']\<rparr>"
  have h1: "''gpt-3.5-turbo'' \<noteq> ''gpt-4''" by simp
  have h2: "\<not> truthy_str (OPENAI_API_KEY env_server)" by (simp add: env_server_def)
  have h3: "truthy_str (OPENAI_API_KEY_SERVER env_server)" by (simp add: env_server_def)
  have h4: "truthy_str (OPENAI_API_KEY_SERVER_AUTH env_server)" by (simp add: env_server_def)
  have h5: "random_ok ?x" by (simp add: random_ok_def sim_ext_def)
  have h6: "getKey ?x env_server GPT3 (KeyStore_init, world_init) = (Inr ''sk-3'', ?p1, ?w1)"
    by (simp add: sample_defs pool_defs)
  have h7: "gpt3keys ?p1 \<noteq> []" by simp
  have h8: "upstream ?x ?w1 ''sk-3'' = Inr invalid_key_response" by (simp add: sim_ext_def)
  have h10: "delete_reply ?x (?w1\<lparr>calls := calls ?w1 @ [''sk-3'']\<rparr>)
           (the (OPENAI_API_KEY_SERVER env_server)) (the (OPENAI_API_KEY_SERVER_AUTH env_server)) ''sk-3'' = Inr True"
    by (simp add: sim_ext_def)
  have h11: "fetch_keys ?x (?w1\<lparr>calls := calls ?w1 @ [''sk-3''], deleted := deleted ?w1 @ [''sk-3'']\<rparr>)
      (key_source env_server) = Inr [(''sk-4'', ''gpt-4'')]"
    by (simp add: sim_ext_def)
  have h12: "filter (\<lambda>r. snd r \<noteq> ''gpt-3'') [(''sk-4'', ''gpt-4'')] \<noteq> []" by simp
  from OpenAIStream_retry_tier [OF h1 h2 h3 h4 h5 h6 h7 h8 invalid_key_response_reply h10 h11 h12, of 0]
  have "take 2 (calls (snd (snd (OpenAIStream (Suc (Suc 0)) ?x env_server ''gpt-3.5-turbo'' []
        (KeyStore_init, world_init))))) = [''sk-3'', ''sk-4'']"
    by (auto simp: world_init_def numeral_2_eq_2 simp del: OpenAIStream.simps)
  moreover have "OpenAIStream (Suc (Suc 0)) ?x env_server ''gpt-3.5-turbo'' [] (KeyStore_init, world_init)
       = (Some (Inr hello_events), \<lparr>initialized = True, gpt3keys = [], gpt4keys = [''sk-4'']\<rparr>,
          \<lparr>loads = [KeyServer ''keys.local'' ''secret'', KeyServer ''keys.local'' ''secret''],
           deleted = [''sk-3''], calls = [''sk-3'', ''sk-4''], draws = 2\<rparr>)"
    by (simp add: sample_defs pool_defs relay_defs)
  moreover from h11 have "fetch_keys ?x
        \<lparr>loads = [KeyServer ''keys.local'' ''secret''], deleted = [''sk-3''], calls = [''sk-3''], draws = 1\<rparr>
        (key_source env_server) = Inr [(''sk-4'', ''gpt-4'')]" by simp
  ultimately show ?thesis using h1 h6 h8 by blast
qed

end
